theory Spec2Isabelle
  imports Main
begin

section \<open>Python values, paths and the file system\<close>

text \<open>
  The four scripts of the repository (\<^verbatim>\<open>img_etiquetas.py\<close>, \<^verbatim>\<open>subir.py\<close>,
  \<^verbatim>\<open>subir2.py\<close>, \<^verbatim>\<open>upload.py\<close>) are straight-line programs around three
  collaborators: the process environment, the local file system and the remote client of
  the \<^verbatim>\<open>roboflow\<close> package. Each collaborator is a parameter of the model, and
  everything a script does to one of them is recorded, in order, in a list of events.

  Values that cross the boundary to the remote client are Python values.
\<close>

datatype pyval =
    PNone
  | PInt int
  | PStr string
  | PList "pyval list"
  | PDict "(string \<times> pyval) list"

text \<open>
  A \<^verbatim>\<open>pathlib.Path\<close> is the list of its parts; \<^verbatim>\<open>p / name\<close> appends one part.
  \<^verbatim>\<open>str(p)\<close> joins the parts with a slash (an anchor part \<^verbatim>\<open>/\<close> is not followed by a second
  slash, the empty path prints as a dot).
\<close>

type_synonym path = "string list"

fun join_parts :: "string list \<Rightarrow> string" where
  "join_parts [] = []"
| "join_parts [x] = x"
| "join_parts (x # y # ys) = x @ ''/'' @ join_parts (y # ys)"

definition path_str :: "path \<Rightarrow> string" where
  "path_str p =
     (case p of
        [] \<Rightarrow> ''.''
      | x # xs \<Rightarrow> if x = ''/'' then ''/'' @ join_parts xs else join_parts (x # xs))"

definition path_name :: "path \<Rightarrow> string" where
  "path_name p = (case rev p of [] \<Rightarrow> [] | x # _ \<Rightarrow> x)"

text \<open>
  \<^verbatim>\<open>Path.suffix\<close> and \<^verbatim>\<open>Path.stem\<close> of the standard library:
  \<^verbatim>\<open>i = name.rfind('.')\<close>; when \<^verbatim>\<open>0 < i < len(name) - 1\<close> the suffix is
  \<^verbatim>\<open>name[i:]\<close> and the stem \<^verbatim>\<open>name[:i]\<close>, otherwise the suffix is empty and the stem
  is the whole name.
\<close>

definition rfind_dot :: "string \<Rightarrow> nat option" where
  "rfind_dot s =
     (let k = length (takeWhile (\<lambda>c. c \<noteq> CHR ''.'') (rev s))
      in if k = length s then None else Some (length s - Suc k))"

definition name_suffix :: "string \<Rightarrow> string" where
  "name_suffix n =
     (case rfind_dot n of
        None \<Rightarrow> []
      | Some i \<Rightarrow> if 0 < i \<and> Suc i < length n then drop i n else [])"

definition name_stem :: "string \<Rightarrow> string" where
  "name_stem n =
     (case rfind_dot n of
        None \<Rightarrow> n
      | Some i \<Rightarrow> if 0 < i \<and> Suc i < length n then take i n else n)"

definition path_suffix :: "path \<Rightarrow> string" where
  "path_suffix p = name_suffix (path_name p)"

definition path_stem :: "path \<Rightarrow> string" where
  "path_stem p = name_stem (path_name p)"

text \<open>
  \<^verbatim>\<open>str.lower()\<close>. A \<^typ>\<open>char\<close> is a byte; the letters \<^verbatim>\<open>A\<close> to \<^verbatim>\<open>Z\<close> are
  mapped to lower case and every other byte is kept. No character outside ASCII lowers
  to a letter of the recognised extensions, so membership in \<^verbatim>\<open>EXTS\<close> is the same as
  on Python's code points.
\<close>

definition lower_char :: "char \<Rightarrow> char" where
  "lower_char c =
     (let n = (of_char c :: nat) in if 65 \<le> n \<and> n \<le> 90 then char_of (n + 32) else c)"

definition lower :: "string \<Rightarrow> string" where
  "lower s = map lower_char s"

text \<open>
  The file system maps a path to what is there: nothing, a regular file, or a directory
  with the names of its entries in the order the operating system lists them.
\<close>

datatype node = RegFile | Directory "string list"

type_synonym filesystem = "path \<Rightarrow> node option"

definition path_exists :: "filesystem \<Rightarrow> path \<Rightarrow> bool" where
  "path_exists fs p = (fs p \<noteq> None)"

definition is_file :: "filesystem \<Rightarrow> path \<Rightarrow> bool" where
  "is_file fs p = (fs p = Some RegFile)"

datatype exn =
    RuntimeError string
  | ValueError string
  | NotADirectoryError path
  | FileNotFoundError path
  | AttributeError string
  | RemoteError string

text \<open>
  \<^verbatim>\<open>str(e)\<close>, the text an \<^verbatim>\<open>except\<close> clause prints: the message of the exception, and
  for the errors of the operating system the error number, its text and the quoted path.
\<close>

definition quoted :: "string \<Rightarrow> string" where
  "quoted s = [CHR 0x27] @ s @ [CHR 0x27]"

fun exn_message :: "exn \<Rightarrow> string" where
  "exn_message (RuntimeError m) = m"
| "exn_message (ValueError m) = m"
| "exn_message (NotADirectoryError p) = ''[Errno 20] Not a directory: '' @ quoted (path_str p)"
| "exn_message (FileNotFoundError p) =
     ''[Errno 2] No such file or directory: '' @ quoted (path_str p)"
| "exn_message (AttributeError m) = m"
| "exn_message (RemoteError m) = m"

text \<open>The name of the type of a value, and the message of a failed attribute look-up.\<close>

fun type_name :: "pyval \<Rightarrow> string" where
  "type_name PNone = ''NoneType''"
| "type_name (PInt n) = ''int''"
| "type_name (PStr s) = ''str''"
| "type_name (PList xs) = ''list''"
| "type_name (PDict d) = ''dict''"

definition no_attribute :: "pyval \<Rightarrow> string \<Rightarrow> string" where
  "no_attribute v a = quoted (type_name v) @ '' object has no attribute '' @ quoted a"

text \<open>\<^verbatim>\<open>Path.iterdir()\<close> raises on anything that is not a directory.\<close>

definition iterdir :: "filesystem \<Rightarrow> path \<Rightarrow> exn + path list" where
  "iterdir fs p =
     (case fs p of
        None \<Rightarrow> Inl (FileNotFoundError p)
      | Some RegFile \<Rightarrow> Inl (NotADirectoryError p)
      | Some (Directory names) \<Rightarrow> Inr (map (\<lambda>n. p @ [n]) names))"

text \<open>
  \<^verbatim>\<open>Path.glob("*.jpg")\<close>: the entries of a directory whose name ends in \<^verbatim>\<open>.jpg\<close>
  (the star also matches the empty string and a leading dot; the comparison is the
  case-sensitive one of POSIX). On anything that is not a directory it yields nothing.
\<close>

definition ends_with :: "string \<Rightarrow> string \<Rightarrow> bool" where
  "ends_with s n = (length s \<le> length n \<and> drop (length n - length s) n = s)"

definition glob_jpg :: "filesystem \<Rightarrow> path \<Rightarrow> path list" where
  "glob_jpg fs p =
     (case fs p of
        Some (Directory names) \<Rightarrow> map (\<lambda>n. p @ [n]) (filter (ends_with ''.jpg'') names)
      | _ \<Rightarrow> [])"

section \<open>The remote client and the trace of a run\<close>

text \<open>
  The remote client is a state machine the scripts know nothing about: a call takes the
  remote state to a new one and either returns a value or raises an exception (an
  instance of \<^verbatim>\<open>Exception\<close>, carried here as its message). Interrupts of the
  interpreter (\<^verbatim>\<open>KeyboardInterrupt\<close>) are outside the model.
\<close>

type_synonym kwargs = "(string \<times> pyval) list"

datatype call =
    New_client pyval
  | Workspace "string option"
  | Project string
  | Upload "pyval list" kwargs

datatype reply = Returned pyval | Raised string

type_synonym 'r remote = "'r \<Rightarrow> call \<Rightarrow> 'r \<times> reply"

datatype fs_op =
    Exists path
  | Is_file path
  | Iterdir path
  | Glob path string
  | Resolve string

text \<open>
  The lines the batch scripts print. \<open>Warning\<close> is the line for a missing directory,
  \<open>Header\<close> the banner of a split, \<open>Success\<close> and \<open>Failure\<close> the line of one asset
  (with the note on the label that only \<^verbatim>\<open>img_etiquetas.py\<close> prints). \<open>Summary\<close>, a line
  with the number of assets uploaded and failed, is what a final report would be.
\<close>

datatype line =
    Warning path "string option"
  | Header string "path option"
  | Success string "bool option"
  | Failure string string
  | Summary nat nat

text \<open>The messages of \<^verbatim>\<open>subir2.py\<close>, on standard error and on standard output.\<close>

datatype notice =
    E_no_api_key
  | E_no_workspace
  | E_no_project
  | E_bad_image path
  | E_init string
  | E_workspace string string
  | E_project string string string
  | E_upload string
  | M_banner
  | M_workspace string
  | M_project string
  | M_image string
  | M_batch string
  | M_split string
  | M_tags "string list"
  | M_sequence int "int option"
  | M_done
  | M_response pyval
  | M_link pyval

datatype event =
    Fs fs_op
  | Net call
  | Print line
  | Stdout notice
  | Stderr notice

text \<open>
  How a script ends: \<^verbatim>\<open>sys.exit\<close> with a code (0 when it runs to its last line), or an
  exception nobody catches. Messages are written in ASCII, without their accents.
\<close>

datatype status = Exit nat | Uncaught exn

section \<open>Credential resolution\<close>

text \<open>
  The environment is the process environment after \<^verbatim>\<open>load_dotenv()\<close>.
  \<^verbatim>\<open>a or b\<close> on optional strings is \<^verbatim>\<open>a\<close> when it is set and not empty.
\<close>

type_synonym environment = "string \<Rightarrow> string option"

definition truthy :: "string option \<Rightarrow> bool" where
  "truthy v = (case v of None \<Rightarrow> False | Some s \<Rightarrow> s \<noteq> [])"

definition py_or :: "string option \<Rightarrow> string option \<Rightarrow> string option" where
  "py_or a b = (if truthy a then a else b)"

definition get_api_key :: "environment \<Rightarrow> string option" where
  "get_api_key env = py_or (env ''ROBOFLOW_API_KEY'') (env ''roboflow_api_key'')"

section \<open>img_etiquetas.py\<close>

definition SPLITS :: "(string \<times> path \<times> path) list" where
  "SPLITS =
     [(''train'', [''data'', ''train'', ''images''], [''data'', ''train'', ''labels'']),
      (''valid'', [''data'', ''val'', ''images''], [''data'', ''val'', ''labels'']),
      (''test'', [''data'', ''test'', ''images''], [''data'', ''test'', ''labels''])]"

definition EXTS :: "string set" where
  "EXTS = {''.jpg'', ''.jpeg'', ''.png'', ''.bmp'', ''.webp''}"

text \<open>Lines 32 to 35: the label that goes with an image, and the keyword arguments of its upload.\<close>

definition etq_label :: "path \<Rightarrow> path \<Rightarrow> path" where
  "etq_label lbl_dir img_path = lbl_dir @ [path_stem img_path @ ''.txt'']"

definition etq_kwargs :: "filesystem \<Rightarrow> string \<Rightarrow> path \<Rightarrow> path \<Rightarrow> kwargs" where
  "etq_kwargs fs split lbl_dir img_path =
     (let label_path = etq_label lbl_dir img_path;
          kwargs = [(''image_path'', PStr (path_str img_path)),
                    (''split'', PStr split),
                    (''num_retry_uploads'', PInt 3)]
      in if path_exists fs label_path
         then kwargs @ [(''annotation_path'', PStr (path_str label_path))]
         else kwargs)"

text \<open>The body of the inner loop (lines 30 to 41), for one entry of the directory.\<close>

definition etq_image ::
  "filesystem \<Rightarrow> 'r remote \<Rightarrow> string \<Rightarrow> path \<Rightarrow> path \<Rightarrow> 'r \<Rightarrow> 'r \<times> event list" where
  "etq_image fs U split lbl_dir img_path r =
     (if \<not> (is_file fs img_path \<and> lower (path_suffix img_path) \<in> EXTS)
      then (r, [Fs (Is_file img_path)])
      else
        let label_path = etq_label lbl_dir img_path;
            kwargs = etq_kwargs fs split lbl_dir img_path;
            before = [Fs (Is_file img_path), Fs (Exists label_path), Net (Upload [] kwargs)]
        in case U r (Upload [] kwargs) of
             (r', Returned resp) \<Rightarrow>
               (r', before @ [Fs (Exists label_path),
                              Print (Success (path_name img_path)
                                       (Some (path_exists fs label_path)))])
           | (r', Raised e) \<Rightarrow>
               (r', before @ [Print (Failure (path_name img_path) e)]))"

fun etq_images ::
  "filesystem \<Rightarrow> 'r remote \<Rightarrow> string \<Rightarrow> path \<Rightarrow> path list \<Rightarrow> 'r \<Rightarrow> 'r \<times> event list" where
  "etq_images fs U split lbl_dir [] r = (r, [])"
| "etq_images fs U split lbl_dir (p # ps) r =
     (case etq_image fs U split lbl_dir p r of
        (r1, ev1) \<Rightarrow>
          (case etq_images fs U split lbl_dir ps r1 of
             (r2, ev2) \<Rightarrow> (r2, ev1 @ ev2)))"

text \<open>
  The body of the outer loop (lines 23 to 41) for one split. The third component is the
  exception that ends the script, if any: \<^verbatim>\<open>iterdir()\<close> is outside every \<^verbatim>\<open>try\<close>.
\<close>

fun etq_split ::
  "filesystem \<Rightarrow> 'r remote \<Rightarrow> string \<times> path \<times> path \<Rightarrow> 'r \<Rightarrow> 'r \<times> event list \<times> exn option" where
  "etq_split fs U (split, img_dir, lbl_dir) r =
     (if \<not> path_exists fs img_dir
      then (r, [Fs (Exists img_dir), Print (Warning img_dir (Some split))], None)
      else
        (case iterdir fs img_dir of
           Inl e \<Rightarrow>
             (r, [Fs (Exists img_dir), Print (Header split None), Fs (Iterdir img_dir)], Some e)
         | Inr entries \<Rightarrow>
             (case etq_images fs U split lbl_dir entries r of
                (r', ev) \<Rightarrow>
                  (r', [Fs (Exists img_dir), Print (Header split None), Fs (Iterdir img_dir)] @ ev,
                   None))))"

fun etq_splits ::
  "filesystem \<Rightarrow> 'r remote \<Rightarrow> (string \<times> path \<times> path) list \<Rightarrow> 'r \<Rightarrow> 'r \<times> event list \<times> exn option" where
  "etq_splits fs U [] r = (r, [], None)"
| "etq_splits fs U (s # ss) r =
     (case etq_split fs U s r of
        (r1, ev1, Some e) \<Rightarrow> (r1, ev1, Some e)
      | (r1, ev1, None) \<Rightarrow>
          (case etq_splits fs U ss r1 of
             (r2, ev2, x) \<Rightarrow> (r2, ev1 @ ev2, x)))"

text \<open>
  The set-up shared by both batch scripts (lines 11 to 13 of \<^verbatim>\<open>img_etiquetas.py\<close>,
  15 to 17 of \<^verbatim>\<open>subir.py\<close>): three calls to the remote client, none of them guarded,
  so that an exception of any of them ends the script.
\<close>

definition then_call ::
  "'r remote \<Rightarrow> call \<Rightarrow> 'r \<times> event list \<times> exn option \<Rightarrow> 'r \<times> event list \<times> exn option" where
  "then_call U c x =
     (case x of
        (r, ev, Some e) \<Rightarrow> (r, ev, Some e)
      | (r, ev, None) \<Rightarrow>
          (case U r c of
             (r', Raised e) \<Rightarrow> (r', ev @ [Net c], Some (RemoteError e))
           | (r', Returned v) \<Rightarrow> (r', ev @ [Net c], None)))"

text \<open>The same for a call whose result is printed: \<^verbatim>\<open>print(rf.workspace())\<close>.\<close>

definition then_print ::
  "'r remote \<Rightarrow> call \<Rightarrow> 'r \<times> event list \<times> exn option \<Rightarrow> 'r \<times> event list \<times> exn option" where
  "then_print U c x =
     (case x of
        (r, ev, Some e) \<Rightarrow> (r, ev, Some e)
      | (r, ev, None) \<Rightarrow>
          (case U r c of
             (r', Raised e) \<Rightarrow> (r', ev @ [Net c], Some (RemoteError e))
           | (r', Returned v) \<Rightarrow> (r', ev @ [Net c, Stdout (M_response v)], None)))"

definition connect :: "'r remote \<Rightarrow> string \<Rightarrow> 'r \<Rightarrow> 'r \<times> event list \<times> exn option" where
  "connect U key r =
     then_call U (Project ''humo_detecter-cuzoe'')
       (then_call U (Workspace (Some ''deteccion-h92uo''))
          (then_call U (New_client (PStr key)) (r, [], None)))"

definition finish :: "'r \<times> event list \<times> exn option \<Rightarrow> 'r \<times> event list \<times> status" where
  "finish x =
     (case x of
        (r, ev, None) \<Rightarrow> (r, ev, Exit 0)
      | (r, ev, Some e) \<Rightarrow> (r, ev, Uncaught e))"

definition img_etiquetas ::
  "environment \<Rightarrow> filesystem \<Rightarrow> 'r remote \<Rightarrow> 'r \<Rightarrow> 'r \<times> event list \<times> status" where
  "img_etiquetas env fs U r =
     (case get_api_key env of
        None \<Rightarrow> (r, [], Uncaught (RuntimeError ''No se encontro ROBOFLOW_API_KEY en el .env''))
      | Some key \<Rightarrow>
          if key = []
          then (r, [], Uncaught (RuntimeError ''No se encontro ROBOFLOW_API_KEY en el .env''))
          else
            (case connect U key r of
               (r1, ev1, Some e) \<Rightarrow> (r1, ev1, Uncaught e)
             | (r1, ev1, None) \<Rightarrow>
                 (case etq_splits fs U SPLITS r1 of
                    (r2, ev2, x) \<Rightarrow> finish (r2, ev1 @ ev2, x))))"

section \<open>subir.py\<close>

definition splits :: "(string \<times> path) list" where
  "splits =
     [(''train'', [''data'', ''train'', ''images'']),
      (''valid'', [''data'', ''val'', ''images'']),
      (''test'', [''data'', ''test'', ''images''])]"

definition subir_kwargs :: "string \<Rightarrow> path \<Rightarrow> kwargs" where
  "subir_kwargs split img_file =
     [(''image_path'', PStr (path_str img_file)),
      (''split'', PStr split),
      (''num_retry_uploads'', PInt 3)]"

definition subir_image :: "'r remote \<Rightarrow> string \<Rightarrow> path \<Rightarrow> 'r \<Rightarrow> 'r \<times> event list" where
  "subir_image U split img_file r =
     (case U r (Upload [] (subir_kwargs split img_file)) of
        (r', Returned resp) \<Rightarrow>
          (r', [Net (Upload [] (subir_kwargs split img_file)),
                Print (Success (path_name img_file) None)])
      | (r', Raised e) \<Rightarrow>
          (r', [Net (Upload [] (subir_kwargs split img_file)),
                Print (Failure (path_name img_file) e)]))"

fun subir_images :: "'r remote \<Rightarrow> string \<Rightarrow> path list \<Rightarrow> 'r \<Rightarrow> 'r \<times> event list" where
  "subir_images U split [] r = (r, [])"
| "subir_images U split (p # ps) r =
     (case subir_image U split p r of
        (r1, ev1) \<Rightarrow>
          (case subir_images U split ps r1 of
             (r2, ev2) \<Rightarrow> (r2, ev1 @ ev2)))"

fun subir_split ::
  "filesystem \<Rightarrow> 'r remote \<Rightarrow> string \<times> path \<Rightarrow> 'r \<Rightarrow> 'r \<times> event list" where
  "subir_split fs U (split, folder_path) r =
     (if \<not> path_exists fs folder_path
      then (r, [Fs (Exists folder_path), Print (Warning folder_path None)])
      else
        (case subir_images U split (glob_jpg fs folder_path) r of
           (r', ev) \<Rightarrow>
             (r', [Fs (Exists folder_path), Print (Header split (Some folder_path)),
                   Fs (Glob folder_path ''*.jpg'')] @ ev)))"

fun subir_splits ::
  "filesystem \<Rightarrow> 'r remote \<Rightarrow> (string \<times> path) list \<Rightarrow> 'r \<Rightarrow> 'r \<times> event list" where
  "subir_splits fs U [] r = (r, [])"
| "subir_splits fs U (s # ss) r =
     (case subir_split fs U s r of
        (r1, ev1) \<Rightarrow>
          (case subir_splits fs U ss r1 of
             (r2, ev2) \<Rightarrow> (r2, ev1 @ ev2)))"

definition subir ::
  "environment \<Rightarrow> filesystem \<Rightarrow> 'r remote \<Rightarrow> 'r \<Rightarrow> 'r \<times> event list \<times> status" where
  "subir env fs U r =
     (case get_api_key env of
        None \<Rightarrow> (r, [], Uncaught (ValueError ''No se encontro la API Key. Define ROBOFLOW_API_KEY en tu archivo .env''))
      | Some key \<Rightarrow>
          if key = []
          then (r, [], Uncaught (ValueError ''No se encontro la API Key. Define ROBOFLOW_API_KEY en tu archivo .env''))
          else
            (case connect U key r of
               (r1, ev1, Some e) \<Rightarrow> (r1, ev1, Uncaught e)
             | (r1, ev1, None) \<Rightarrow>
                 (case subir_splits fs U splits r1 of
                    (r2, ev2) \<Rightarrow> (r2, ev1 @ ev2, Exit 0))))"

section \<open>subir2.py\<close>

text \<open>
  The namespace \<^verbatim>\<open>parse_args()\<close> returns, one field per option, with the types the
  parser's declarations give them. \<^verbatim>\<open>argparse\<close> itself is not modelled.
\<close>

record args =
  arg_workspace :: "string option"
  arg_project :: "string option"
  arg_image :: string
  arg_batch_name :: "string option"
  arg_split :: "string option"
  arg_tags :: "string list option"
  arg_retries :: "int option"
  arg_sequence_number :: "int option"
  arg_sequence_size :: "int option"

definition opt_str :: "string option \<Rightarrow> pyval" where
  "opt_str v = (case v of None \<Rightarrow> PNone | Some s \<Rightarrow> PStr s)"

definition opt_int :: "int option \<Rightarrow> pyval" where
  "opt_int v = (case v of None \<Rightarrow> PNone | Some n \<Rightarrow> PInt n)"

text \<open>Lines 145 to 155: the dictionary of keyword arguments, without the entries that are \<^verbatim>\<open>None\<close>.\<close>

definition upload_kwargs :: "args \<Rightarrow> path \<Rightarrow> kwargs" where
  "upload_kwargs a image_path =
     filter (\<lambda>kv. snd kv \<noteq> PNone)
       [(''image_path'', PStr (path_str image_path)),
        (''num_retry_uploads'', opt_int (arg_retries a)),
        (''batch_name'', opt_str (arg_batch_name a)),
        (''split'', opt_str (arg_split a)),
        (''tag_names'', (case arg_tags a of None \<Rightarrow> PNone | Some ts \<Rightarrow> PList (map PStr ts))),
        (''sequence_number'', opt_int (arg_sequence_number a)),
        (''sequence_size'', opt_int (arg_sequence_size a))]"

text \<open>Lines 157 to 165: what is printed before the upload.\<close>

definition announce :: "args \<Rightarrow> string \<Rightarrow> string \<Rightarrow> path \<Rightarrow> event list" where
  "announce a w p image_path =
     [Stdout M_banner, Stdout (M_workspace w), Stdout (M_project p),
      Stdout (M_image (path_name image_path))]
     @ (case arg_batch_name a of None \<Rightarrow> [] | Some b \<Rightarrow> if b = [] then [] else [Stdout (M_batch b)])
     @ (case arg_split a of None \<Rightarrow> [] | Some s \<Rightarrow> if s = [] then [] else [Stdout (M_split s)])
     @ (case arg_tags a of None \<Rightarrow> [] | Some ts \<Rightarrow> if ts = [] then [] else [Stdout (M_tags ts)])
     @ (case arg_sequence_number a of
          None \<Rightarrow> []
        | Some n \<Rightarrow>
            [Stdout (M_sequence n
               (case arg_sequence_size a of
                  None \<Rightarrow> None
                | Some z \<Rightarrow> if z = 0 then None else Some z))])"

text \<open>
  Lines 173 to 175: the link of the response. \<^verbatim>\<open>resp.get("image", {})\<close> is whatever
  the response holds under that key, and \<^verbatim>\<open>.get("link")\<close> on a value that is not a
  dictionary raises \<^verbatim>\<open>AttributeError\<close>.
\<close>

fun pytruth :: "pyval \<Rightarrow> bool" where
  "pytruth PNone = False"
| "pytruth (PInt n) = (n \<noteq> 0)"
| "pytruth (PStr s) = (s \<noteq> [])"
| "pytruth (PList xs) = (xs \<noteq> [])"
| "pytruth (PDict d) = (d \<noteq> [])"

definition dict_get :: "(string \<times> pyval) list \<Rightarrow> string \<Rightarrow> pyval \<Rightarrow> pyval" where
  "dict_get d k dflt = (case map_of d k of None \<Rightarrow> dflt | Some v \<Rightarrow> v)"

definition find_link :: "pyval \<Rightarrow> exn + pyval" where
  "find_link resp =
     (case resp of
        PDict d \<Rightarrow>
          (let img = dict_get d ''image'' (PDict [])
           in case img of
                PDict im \<Rightarrow>
                  Inr (if pytruth (dict_get im ''link'' PNone)
                       then dict_get im ''link'' PNone
                       else dict_get d ''link'' PNone)
              | _ \<Rightarrow> Inl (AttributeError (no_attribute img ''get'')))
      | _ \<Rightarrow> Inr PNone)"

text \<open>Lines 167 to 181: the upload, inside the last \<^verbatim>\<open>try\<close>.\<close>

definition main_upload ::
  "'r remote \<Rightarrow> args \<Rightarrow> path \<Rightarrow> 'r \<Rightarrow> 'r \<times> event list \<times> status" where
  "main_upload U a image_path r =
     (let kw = upload_kwargs a image_path
      in case U r (Upload [] kw) of
           (r', Raised e) \<Rightarrow> (r', [Net (Upload [] kw), Stderr (E_upload e)], Exit 7)
         | (r', Returned resp) \<Rightarrow>
             (case find_link resp of
                Inl e \<Rightarrow>
                  (r', [Net (Upload [] kw), Stdout M_done, Stdout (M_response resp),
                        Stderr (E_upload (exn_message e))], Exit 7)
              | Inr link \<Rightarrow>
                  (r', [Net (Upload [] kw), Stdout M_done, Stdout (M_response resp)]
                       @ (if pytruth link then [Stdout (M_link link)] else []), Exit 0)))"

text \<open>Lines 124 to 142: the client, the workspace and the project, each in its own \<^verbatim>\<open>try\<close>.\<close>

definition main_connect ::
  "'r remote \<Rightarrow> args \<Rightarrow> string \<Rightarrow> string \<Rightarrow> string \<Rightarrow> path \<Rightarrow> 'r \<Rightarrow> 'r \<times> event list \<times> status" where
  "main_connect U a key w p image_path r =
     (case U r (New_client (PStr key)) of
        (r1, Raised e) \<Rightarrow> (r1, [Net (New_client (PStr key)), Stderr (E_init e)], Exit 4)
      | (r1, Returned _) \<Rightarrow>
          (case U r1 (Workspace (Some w)) of
             (r2, Raised e) \<Rightarrow>
               (r2, [Net (New_client (PStr key)), Net (Workspace (Some w)),
                     Stderr (E_workspace w e)], Exit 5)
           | (r2, Returned _) \<Rightarrow>
               (case U r2 (Project p) of
                  (r3, Raised e) \<Rightarrow>
                    (r3, [Net (New_client (PStr key)), Net (Workspace (Some w)), Net (Project p),
                          Stderr (E_project p w e)], Exit 6)
                | (r3, Returned _) \<Rightarrow>
                    (case main_upload U a image_path r3 of
                       (r4, ev, st) \<Rightarrow>
                         (r4, [Net (New_client (PStr key)), Net (Workspace (Some w)),
                               Net (Project p)] @ announce a w p image_path @ ev, st)))))"

text \<open>
  \<^verbatim>\<open>main()\<close>. \<open>resolve\<close> is \<^verbatim>\<open>Path(s).expanduser().resolve()\<close>, which depends on
  the home and working directories and on symbolic links: a parameter.
\<close>

definition main ::
  "environment \<Rightarrow> filesystem \<Rightarrow> (string \<Rightarrow> path) \<Rightarrow> 'r remote \<Rightarrow> args \<Rightarrow> 'r
     \<Rightarrow> 'r \<times> event list \<times> status" where
  "main env fs resolve U a r =
     (case get_api_key env of
        None \<Rightarrow> (r, [Stderr E_no_api_key], Exit 2)
      | Some key \<Rightarrow>
          if key = [] then (r, [Stderr E_no_api_key], Exit 2)
          else
            (case arg_workspace a of
               None \<Rightarrow> (r, [Stderr E_no_workspace], Exit 2)
             | Some w \<Rightarrow>
                 if w = [] then (r, [Stderr E_no_workspace], Exit 2)
                 else
                   (case arg_project a of
                      None \<Rightarrow> (r, [Stderr E_no_project], Exit 2)
                    | Some p \<Rightarrow>
                        if p = [] then (r, [Stderr E_no_project], Exit 2)
                        else
                          let image_path = resolve (arg_image a)
                          in if \<not> path_exists fs image_path
                             then (r, [Fs (Resolve (arg_image a)), Fs (Exists image_path),
                                       Stderr (E_bad_image image_path)], Exit 3)
                             else if \<not> is_file fs image_path
                             then (r, [Fs (Resolve (arg_image a)), Fs (Exists image_path),
                                       Fs (Is_file image_path),
                                       Stderr (E_bad_image image_path)], Exit 3)
                             else
                               (case main_connect U a key w p image_path r of
                                  (r', ev, st) \<Rightarrow>
                                    (r', [Fs (Resolve (arg_image a)), Fs (Exists image_path),
                                          Fs (Is_file image_path)] @ ev, st)))))"

section \<open>upload.py\<close>

text \<open>
  The sample script: it reads the lower-case variable only, hands whatever it finds
  (\<^verbatim>\<open>None\<close> when the variable is unset) to the client, prints its workspace and makes
  four more calls, none of them guarded.
\<close>

definition upload_py :: "environment \<Rightarrow> 'r remote \<Rightarrow> 'r \<Rightarrow> 'r \<times> event list \<times> status" where
  "upload_py env U r =
     finish
       (then_call U
          (Upload [] [(''image_path'', PStr ''UPLOAD_IMAGE.jpg''),
                      (''batch_name'', PStr ''YOUR_BATCH_NAME''),
                      (''split'', PStr ''train''),
                      (''num_retry_uploads'', PInt 3),
                      (''tag_names'', PList [PStr ''YOUR_TAG_NAME'']),
                      (''sequence_number'', PInt 99),
                      (''sequence_size'', PInt 100)])
          (then_call U (Upload [PStr ''UPLOAD_IMAGE.jpg''] [])
             (then_call U (Project ''my-project'')
                (then_call U (Workspace (Some ''my-workspace''))
                   (then_print U (Workspace None)
                      (then_call U (New_client (opt_str (env ''roboflow_api_key'')))
                         (r, [], None)))))))"

section \<open>Reading a trace\<close>

fun upload_of :: "event \<Rightarrow> kwargs list" where
  "upload_of (Net (Upload pos kw)) = [kw]"
| "upload_of _ = []"

definition upload_calls :: "event list \<Rightarrow> kwargs list" where
  "upload_calls ev = concat (map upload_of ev)"

fun outcome_of :: "event \<Rightarrow> line list" where
  "outcome_of (Print (Success n l)) = [Success n l]"
| "outcome_of (Print (Failure n e)) = [Failure n e]"
| "outcome_of _ = []"

definition outcome_lines :: "event list \<Rightarrow> line list" where
  "outcome_lines ev = concat (map outcome_of ev)"

fun is_success :: "line \<Rightarrow> bool" where
  "is_success (Success n l) = True"
| "is_success _ = False"

fun is_failure :: "line \<Rightarrow> bool" where
  "is_failure (Failure n e) = True"
| "is_failure _ = False"

fun line_name :: "line \<Rightarrow> string" where
  "line_name (Success n l) = n"
| "line_name (Failure n e) = n"
| "line_name _ = []"

fun is_net :: "event \<Rightarrow> bool" where
  "is_net (Net c) = True"
| "is_net _ = False"

fun printed_of :: "event \<Rightarrow> line list" where
  "printed_of (Print l) = [l]"
| "printed_of _ = []"

definition printed :: "event list \<Rightarrow> line list" where
  "printed ev = concat (map printed_of ev)"

text \<open>
  The upload calls and the lines of the assets, in the order they happen; and what it
  means that every call is followed at once by the line that reports it.
\<close>

fun step_of :: "event \<Rightarrow> event list" where
  "step_of (Net (Upload pos kw)) = [Net (Upload pos kw)]"
| "step_of (Print (Success n l)) = [Print (Success n l)]"
| "step_of (Print (Failure n e)) = [Print (Failure n e)]"
| "step_of _ = []"

definition steps :: "event list \<Rightarrow> event list" where
  "steps ev = concat (map step_of ev)"

definition reported_in_step :: "event list \<Rightarrow> bool" where
  "reported_in_step ev =
     (length (upload_calls ev) = length (outcome_lines ev) \<and>
      steps ev =
        concat (map (\<lambda>x. [Net (Upload [] (fst x)), Print (snd x)])
                  (zip (upload_calls ev) (outcome_lines ev))))"

text \<open>A stretch of a trace with no upload call and nothing printed.\<close>

definition quiet :: "event list \<Rightarrow> bool" where
  "quiet c = (upload_calls c = [] \<and> outcome_lines c = [] \<and> printed c = [] \<and> steps c = [])"

definition count_uploaded :: "event list \<Rightarrow> nat" where
  "count_uploaded ev = length (filter is_success (outcome_lines ev))"

definition count_failed :: "event list \<Rightarrow> nat" where
  "count_failed ev = length (filter is_failure (outcome_lines ev))"

text \<open>
  The entries of an image directory that \<^verbatim>\<open>img_etiquetas.py\<close> does not skip on line 30;
  \<^verbatim>\<open>subir.py\<close> takes what its glob yields.
\<close>

definition etq_discovered :: "filesystem \<Rightarrow> path \<Rightarrow> path list" where
  "etq_discovered fs img_dir =
     (case fs img_dir of
        Some (Directory names) \<Rightarrow>
          filter (\<lambda>p. is_file fs p \<and> lower (path_suffix p) \<in> EXTS) (map (\<lambda>n. img_dir @ [n]) names)
      | _ \<Rightarrow> [])"

section \<open>A small data set\<close>

text \<open>
  A training split with two images, one of them labelled, a file that is no image and a
  directory whose name ends in \<^verbatim>\<open>.jpg\<close>; an empty validation split; no test split. The
  remote fails every upload of \<^verbatim>\<open>a.jpg\<close> and counts the calls it receives.
\<close>

definition demo_fs :: filesystem where
  "demo_fs = map_of
     [([''data'', ''train'', ''images''], Directory [''a.jpg'', ''b.PNG'', ''notes.md'', ''sub.jpg'']),
      ([''data'', ''train'', ''images'', ''a.jpg''], RegFile),
      ([''data'', ''train'', ''images'', ''b.PNG''], RegFile),
      ([''data'', ''train'', ''images'', ''notes.md''], RegFile),
      ([''data'', ''train'', ''images'', ''sub.jpg''], Directory []),
      ([''data'', ''train'', ''labels''], Directory [''a.txt'', ''b1.txt'']),
      ([''data'', ''train'', ''labels'', ''a.txt''], RegFile),
      ([''data'', ''train'', ''labels'', ''b1.txt''], RegFile),
      ([''data'', ''val'', ''images''], Directory [])]"

definition demo_remote :: "nat remote" where
  "demo_remote n c =
     (Suc n,
      case c of
        Upload pos kw \<Rightarrow>
          if map_of kw ''image_path'' = Some (PStr ''data/train/images/a.jpg'')
          then Raised ''timeout'' else Returned PNone
      | _ \<Rightarrow> Returned PNone)"

text \<open>
  A data set whose training image directory is a regular file, next to a validation split
  with one image; and a remote whose upload returns a dictionary with a string under
  \<^verbatim>\<open>image\<close>.
\<close>

definition misplaced_fs :: filesystem where
  "misplaced_fs = map_of
     [([''data'', ''train'', ''images''], RegFile),
      ([''data'', ''val'', ''images''], Directory [''v.jpg'']),
      ([''data'', ''val'', ''images'', ''v.jpg''], RegFile)]"

definition dict_remote :: "nat remote" where
  "dict_remote n c =
     (Suc n,
      case c of
        Upload pos kw \<Rightarrow> Returned (PDict [(''image'', PStr ''x'')])
      | _ \<Rightarrow> Returned PNone)"

text \<open>A remote that fails the call number \<open>k\<close> (counting from 0) and no other.\<close>

definition failing_remote :: "nat \<Rightarrow> nat remote" where
  "failing_remote k n c = (Suc n, if n = k then Raised ''down'' else Returned PNone)"

definition no_env :: environment where
  "no_env v = None"

definition demo_env :: environment where
  "demo_env = map_of [(''ROBOFLOW_API_KEY'', ''secret'')]"

definition demo_args :: args where
  "demo_args =
     \<lparr>arg_workspace = Some ''w'', arg_project = Some ''p'', arg_image = ''b.PNG'',
      arg_batch_name = None, arg_split = Some ''train'', arg_tags = None,
      arg_retries = Some 3, arg_sequence_number = None, arg_sequence_size = None\<rparr>"

definition demo_resolve :: "string \<Rightarrow> path" where
  "demo_resolve s = [''data'', ''train'', ''images'', s]"

section \<open>Reading a trace: basic facts\<close>

lemma upload_calls_simps [simp]:
  "upload_calls [] = []"
  "upload_calls (e # ev) = upload_of e @ upload_calls ev"
  "upload_calls (ev @ ev') = upload_calls ev @ upload_calls ev'"
  by (simp_all add: upload_calls_def)

lemma outcome_lines_simps [simp]:
  "outcome_lines [] = []"
  "outcome_lines (e # ev) = outcome_of e @ outcome_lines ev"
  "outcome_lines (ev @ ev') = outcome_lines ev @ outcome_lines ev'"
  by (simp_all add: outcome_lines_def)

lemma path_name_snoc [simp]: "path_name (p @ [n]) = n"
  by (simp add: path_name_def)

lemma path_suffix_snoc [simp]: "path_suffix (p @ [n]) = name_suffix n"
  by (simp add: path_suffix_def)

lemma path_stem_snoc [simp]: "path_stem (p @ [n]) = name_stem n"
  by (simp add: path_stem_def)

section \<open>The inner loop of img_etiquetas.py\<close>

lemma etq_image_calls:
  "upload_calls (snd (etq_image fs U s lbl p r)) =
     (if is_file fs p \<and> lower (path_suffix p) \<in> EXTS then [etq_kwargs fs s lbl p] else [])"
  by (auto simp: etq_image_def Let_def split: prod.splits reply.splits)

lemma etq_image_outcomes:
  "map line_name (outcome_lines (snd (etq_image fs U s lbl p r))) =
     (if is_file fs p \<and> lower (path_suffix p) \<in> EXTS then [path_name p] else [])"
  by (auto simp: etq_image_def Let_def split: prod.splits reply.splits)

lemma etq_images_snd:
  "snd (etq_images fs U s lbl (p # ps) r) =
     snd (etq_image fs U s lbl p r) @ snd (etq_images fs U s lbl ps (fst (etq_image fs U s lbl p r)))"
  by (simp split: prod.splits)

lemma etq_images_calls:
  "upload_calls (snd (etq_images fs U s lbl ps r)) =
     map (etq_kwargs fs s lbl) (filter (\<lambda>p. is_file fs p \<and> lower (path_suffix p) \<in> EXTS) ps)"
  by (induction ps arbitrary: r) (simp_all add: etq_images_snd etq_image_calls del: etq_images.simps(2))

lemma etq_images_outcomes:
  "map line_name (outcome_lines (snd (etq_images fs U s lbl ps r))) =
     map path_name (filter (\<lambda>p. is_file fs p \<and> lower (path_suffix p) \<in> EXTS) ps)"
  by (induction ps arbitrary: r) (simp_all add: etq_images_snd etq_image_outcomes del: etq_images.simps(2))

lemma etq_split_directory:
  "fs img_dir = Some (Directory names) \<Longrightarrow>
   etq_split fs U (s, img_dir, lbl) r =
     (fst (etq_images fs U s lbl (map (\<lambda>n. img_dir @ [n]) names) r),
      [Fs (Exists img_dir), Print (Header s None), Fs (Iterdir img_dir)]
        @ snd (etq_images fs U s lbl (map (\<lambda>n. img_dir @ [n]) names) r),
      None)"
  by (simp add: path_exists_def iterdir_def split: prod.splits)

section \<open>Stems, suffixes and the name of the label\<close>

lemma rfind_dot_txt: "rfind_dot (s @ ''.txt'') = Some (length s)"
  by (simp add: rfind_dot_def)

lemma stem_txt: "s \<noteq> [] \<Longrightarrow> name_stem (s @ ''.txt'') = s"
  by (simp add: name_stem_def rfind_dot_txt)

lemma suffix_txt: "s \<noteq> [] \<Longrightarrow> name_suffix (s @ ''.txt'') = ''.txt''"
  by (simp add: name_suffix_def rfind_dot_txt)

lemma stem_suffix: "name_stem m @ name_suffix m = m"
  by (simp add: name_stem_def name_suffix_def split: option.splits)

lemma suffix_stem_nonempty: "name_suffix n \<noteq> [] \<Longrightarrow> name_stem n \<noteq> []"
  by (auto simp: name_stem_def name_suffix_def split: option.splits if_splits)

lemma lower_EXTS_nonempty: "lower x \<in> EXTS \<Longrightarrow> x \<noteq> []"
  by (auto simp: lower_def EXTS_def)

lemma label_name_unique:
  assumes "lower (name_suffix n) \<in> EXTS"
  shows "(name_stem m = name_stem n \<and> name_suffix m = ''.txt'') \<longleftrightarrow> m = name_stem n @ ''.txt''"
proof
  assume "name_stem m = name_stem n \<and> name_suffix m = ''.txt''"
  then show "m = name_stem n @ ''.txt''"
    using stem_suffix [of m] by simp
next
  assume m: "m = name_stem n @ ''.txt''"
  have "name_stem n \<noteq> []"
    using assms lower_EXTS_nonempty suffix_stem_nonempty by blast
  then show "name_stem m = name_stem n \<and> name_suffix m = ''.txt''"
    by (simp add: m stem_txt suffix_txt)
qed


lemma etq_kwargs_image: "map_of (etq_kwargs fs s lbl p) ''image_path'' = Some (PStr (path_str p))"
  by (simp add: etq_kwargs_def Let_def)

lemma etq_kwargs_annotation:
  "map_of (etq_kwargs fs s lbl p) ''annotation_path'' =
     (if path_exists fs (lbl @ [path_stem p @ ''.txt''])
      then Some (PStr (path_str (lbl @ [path_stem p @ ''.txt'']))) else None)"
  by (simp add: etq_kwargs_def etq_label_def Let_def)

lemma etq_split_calls:
  "fs img_dir = Some (Directory names) \<Longrightarrow>
   upload_calls (fst (snd (etq_split fs U (s, img_dir, lbl) r))) =
     map (\<lambda>n. etq_kwargs fs s lbl (img_dir @ [n]))
       (filter (\<lambda>n. is_file fs (img_dir @ [n]) \<and> lower (name_suffix n) \<in> EXTS) names)"
  by (simp add: etq_split_directory etq_images_calls filter_map comp_def del: etq_split.simps)

section \<open>Matching images and labels\<close>

text \<open>
  C1. In \<^verbatim>\<open>img_etiquetas.py\<close>, the upload calls of a split correspond one to one, in
  order, to the entries of the image directory that are files with a recognised
  extension. The call for the entry \<open>n\<close> carries an annotation path if and only if the
  annotation directory has an entry \<open>m\<close> whose stem is the stem of \<open>n\<close> and whose suffix
  is \<^verbatim>\<open>.txt\<close> (existence is \<^verbatim>\<open>Path.exists()\<close>), and the path it carries is the path of
  that entry. There is exactly one such name, the stem followed by \<^verbatim>\<open>.txt\<close>, so an entry
  whose stem only starts with or contains the stem of the image never attaches anything.
\<close>

theorem annotation_attached_iff_exact_label:
  assumes "fs img_dir = Some (Directory names)"
  shows "list_all2
     (\<lambda>n kw. map_of kw ''image_path'' = Some (PStr (path_str (img_dir @ [n]))) \<and>
        ((map_of kw ''annotation_path'' \<noteq> None) =
           (\<exists>m. name_stem m = name_stem n \<and> name_suffix m = ''.txt'' \<and>
                path_exists fs (lbl_dir @ [m]))) \<and>
        (\<forall>m. name_stem m = name_stem n \<and> name_suffix m = ''.txt'' \<and> path_exists fs (lbl_dir @ [m])
           \<longrightarrow> map_of kw ''annotation_path'' = Some (PStr (path_str (lbl_dir @ [m])))))
     (filter (\<lambda>n. is_file fs (img_dir @ [n]) \<and> lower (name_suffix n) \<in> EXTS) names)
     (upload_calls (fst (snd (etq_split fs U (split, img_dir, lbl_dir) r))))"
proof -
  have one: "map_of (etq_kwargs fs split lbl_dir (img_dir @ [n])) ''image_path'' =
               Some (PStr (path_str (img_dir @ [n]))) \<and>
        ((map_of (etq_kwargs fs split lbl_dir (img_dir @ [n])) ''annotation_path'' \<noteq> None) =
           (\<exists>m. name_stem m = name_stem n \<and> name_suffix m = ''.txt'' \<and>
                path_exists fs (lbl_dir @ [m]))) \<and>
        (\<forall>m. name_stem m = name_stem n \<and> name_suffix m = ''.txt'' \<and> path_exists fs (lbl_dir @ [m])
           \<longrightarrow> map_of (etq_kwargs fs split lbl_dir (img_dir @ [n])) ''annotation_path'' =
                 Some (PStr (path_str (lbl_dir @ [m]))))"
    if ext: "lower (name_suffix n) \<in> EXTS" for n
  proof -
    let ?l = "name_stem n @ ''.txt''"
    have only: "m = ?l" if "name_stem m = name_stem n" "name_suffix m = ''.txt''" for m
      using label_name_unique [OF ext, of m] that by simp
    have this_one: "name_stem ?l = name_stem n \<and> name_suffix ?l = ''.txt''"
      using label_name_unique [OF ext, of ?l] by simp
    have ex: "(\<exists>m. name_stem m = name_stem n \<and> name_suffix m = ''.txt'' \<and>
                 path_exists fs (lbl_dir @ [m])) = path_exists fs (lbl_dir @ [?l])"
      using only this_one by blast
    have "map_of (etq_kwargs fs split lbl_dir (img_dir @ [n])) ''annotation_path'' =
            Some (PStr (path_str (lbl_dir @ [m])))"
      if "name_stem m = name_stem n" "name_suffix m = ''.txt''" "path_exists fs (lbl_dir @ [m])"
      for m
      using only [OF that(1,2)] that(3) by (simp add: etq_kwargs_annotation)
    then show ?thesis
      by (simp add: etq_kwargs_image etq_kwargs_annotation ex)
  qed
  have calls: "upload_calls (fst (snd (etq_split fs U (split, img_dir, lbl_dir) r))) =
     map (\<lambda>n. etq_kwargs fs split lbl_dir (img_dir @ [n]))
       (filter (\<lambda>n. is_file fs (img_dir @ [n]) \<and> lower (name_suffix n) \<in> EXTS) names)"
    using assms by (rule etq_split_calls)
  show ?thesis
    unfolding calls list_all2_map2 list_all2_same using one by simp
qed

theorem annotation_attached_iff_exact_label_witness:
  "demo_fs [''data'', ''train'', ''images''] =
     Some (Directory [''a.jpg'', ''b.PNG'', ''notes.md'', ''sub.jpg'']) \<and>
   list_all2
     (\<lambda>n kw. map_of kw ''image_path'' = Some (PStr (path_str ([''data'', ''train'', ''images''] @ [n]))) \<and>
        ((map_of kw ''annotation_path'' \<noteq> None) =
           (\<exists>m. name_stem m = name_stem n \<and> name_suffix m = ''.txt'' \<and>
                path_exists demo_fs ([''data'', ''train'', ''labels''] @ [m]))) \<and>
        (\<forall>m. name_stem m = name_stem n \<and> name_suffix m = ''.txt'' \<and>
              path_exists demo_fs ([''data'', ''train'', ''labels''] @ [m])
           \<longrightarrow> map_of kw ''annotation_path'' =
                 Some (PStr (path_str ([''data'', ''train'', ''labels''] @ [m])))))
     [''a.jpg'', ''b.PNG'']
     [[(''image_path'', PStr ''data/train/images/a.jpg''), (''split'', PStr ''train''),
       (''num_retry_uploads'', PInt 3), (''annotation_path'', PStr ''data/train/labels/a.txt'')],
      [(''image_path'', PStr ''data/train/images/b.PNG''), (''split'', PStr ''train''),
       (''num_retry_uploads'', PInt 3)]]"
proof -
  have h: "demo_fs [''data'', ''train'', ''images''] =
             Some (Directory [''a.jpg'', ''b.PNG'', ''notes.md'', ''sub.jpg''])"
    by code_simp
  have f: "filter (\<lambda>n. is_file demo_fs ([''data'', ''train'', ''images''] @ [n]) \<and>
                       lower (name_suffix n) \<in> EXTS)
             [''a.jpg'', ''b.PNG'', ''notes.md'', ''sub.jpg''] = [''a.jpg'', ''b.PNG'']"
    by code_simp
  have c: "upload_calls (fst (snd (etq_split demo_fs demo_remote
             (''train'', [''data'', ''train'', ''images''], [''data'', ''train'', ''labels'']) 0))) =
     [[(''image_path'', PStr ''data/train/images/a.jpg''), (''split'', PStr ''train''),
       (''num_retry_uploads'', PInt 3), (''annotation_path'', PStr ''data/train/labels/a.txt'')],
      [(''image_path'', PStr ''data/train/images/b.PNG''), (''split'', PStr ''train''),
       (''num_retry_uploads'', PInt 3)]]"
    by code_simp
  show ?thesis
    using annotation_attached_iff_exact_label [where fs = demo_fs
        and img_dir = "[''data'', ''train'', ''images'']"
        and names = "[''a.jpg'', ''b.PNG'', ''notes.md'', ''sub.jpg'']"
        and lbl_dir = "[''data'', ''train'', ''labels'']"
        and U = demo_remote and split = "''train''" and r = 0] h
    unfolding f c by blast
qed

lemma printed_simps [simp]:
  "printed [] = []"
  "printed (e # ev) = printed_of e @ printed ev"
  "printed (ev @ ev') = printed ev @ printed ev'"
  by (simp_all add: printed_def)

lemma etq_image_printed:
  "printed (snd (etq_image fs U s lbl p r)) = outcome_lines (snd (etq_image fs U s lbl p r))"
  by (auto simp: etq_image_def Let_def split: prod.splits reply.splits)

lemma etq_images_printed:
  "printed (snd (etq_images fs U s lbl ps r)) = outcome_lines (snd (etq_images fs U s lbl ps r))"
  by (induction ps arbitrary: r) (simp_all add: etq_images_snd etq_image_printed del: etq_images.simps(2))

section \<open>The inner loop of subir.py\<close>

lemma subir_image_calls: "upload_calls (snd (subir_image U s p r)) = [subir_kwargs s p]"
  by (auto simp: subir_image_def split: prod.splits reply.splits)

lemma subir_image_outcomes:
  "map line_name (outcome_lines (snd (subir_image U s p r))) = [path_name p]"
  by (auto simp: subir_image_def split: prod.splits reply.splits)

lemma subir_images_snd:
  "snd (subir_images U s (p # ps) r) =
     snd (subir_image U s p r) @ snd (subir_images U s ps (fst (subir_image U s p r)))"
  by (simp split: prod.splits)

lemma subir_images_calls: "upload_calls (snd (subir_images U s ps r)) = map (subir_kwargs s) ps"
  by (induction ps arbitrary: r) (simp_all add: subir_images_snd subir_image_calls del: subir_images.simps(2))

lemma subir_images_outcomes:
  "map line_name (outcome_lines (snd (subir_images U s ps r))) = map path_name ps"
  by (induction ps arbitrary: r)
    (simp_all add: subir_images_snd subir_image_outcomes del: subir_images.simps(2))

lemma subir_split_present:
  "path_exists fs folder \<Longrightarrow>
   subir_split fs U (s, folder) r =
     (fst (subir_images U s (glob_jpg fs folder) r),
      [Fs (Exists folder), Print (Header s (Some folder)), Fs (Glob folder ''*.jpg'')]
        @ snd (subir_images U s (glob_jpg fs folder) r))"
  by (simp split: prod.splits)

lemma subir_kwargs_image: "map_of (subir_kwargs s p) ''image_path'' = Some (PStr (path_str p))"
  by (simp add: subir_kwargs_def)

section \<open>Which entries of an image directory are uploaded\<close>

text \<open>
  C8, as the claim states it, fails on \<^verbatim>\<open>subir.py\<close>: in the training directory of the
  small data set it uploads \<^verbatim>\<open>a.jpg\<close> and the directory \<^verbatim>\<open>sub.jpg\<close>, and not the file
  \<^verbatim>\<open>b.PNG\<close>, so what it uploads is not the list of files with a recognised extension.
\<close>

theorem discovery_subir_counterexample:
  "map (\<lambda>kw. map_of kw ''image_path'')
     (upload_calls (snd (subir_split demo_fs demo_remote (''train'', [''data'', ''train'', ''images'']) 0)))
   \<noteq> map (\<lambda>n. Some (PStr (path_str ([''data'', ''train'', ''images''] @ [n]))))
       (filter (\<lambda>n. is_file demo_fs ([''data'', ''train'', ''images''] @ [n]) \<and>
                    lower (name_suffix n) \<in> EXTS)
          [''a.jpg'', ''b.PNG'', ''notes.md'', ''sub.jpg''])"
  by code_simp

text \<open>
  C8, amended. \<^verbatim>\<open>img_etiquetas.py\<close> uploads, in the order of the directory, exactly the
  entries that are files and whose suffix, in lower case, is one of the five recognised
  ones; every other entry is skipped without a line and without an error, so that the
  split prints its banner and one line per uploaded entry and nothing else.
  \<^verbatim>\<open>subir.py\<close> uploads exactly the entries whose name ends in \<^verbatim>\<open>.jpg\<close>, files or not.
\<close>

theorem discovery_by_extension:
  assumes "fs dir = Some (Directory names)"
  shows "map (\<lambda>kw. map_of kw ''image_path'')
           (upload_calls (fst (snd (etq_split fs U (split, dir, lbl_dir) r)))) =
         map (\<lambda>n. Some (PStr (path_str (dir @ [n]))))
           (filter (\<lambda>n. is_file fs (dir @ [n]) \<and> lower (name_suffix n) \<in> EXTS) names) \<and>
         map line_name (outcome_lines (fst (snd (etq_split fs U (split, dir, lbl_dir) r)))) =
         filter (\<lambda>n. is_file fs (dir @ [n]) \<and> lower (name_suffix n) \<in> EXTS) names \<and>
         printed (fst (snd (etq_split fs U (split, dir, lbl_dir) r))) =
         Header split None # outcome_lines (fst (snd (etq_split fs U (split, dir, lbl_dir) r))) \<and>
         snd (snd (etq_split fs U (split, dir, lbl_dir) r)) = None \<and>
         map (\<lambda>kw. map_of kw ''image_path'')
           (upload_calls (snd (subir_split fs U (split, dir) r))) =
         map (\<lambda>n. Some (PStr (path_str (dir @ [n])))) (filter (ends_with ''.jpg'') names) \<and>
         map line_name (outcome_lines (snd (subir_split fs U (split, dir) r))) =
         filter (ends_with ''.jpg'') names"
proof -
  have ex: "path_exists fs dir"
    using assms by (simp add: path_exists_def)
  have glob: "glob_jpg fs dir = map (\<lambda>n. dir @ [n]) (filter (ends_with ''.jpg'') names)"
    using assms by (simp add: glob_jpg_def)
  have a: "map (\<lambda>kw. map_of kw ''image_path'')
           (upload_calls (fst (snd (etq_split fs U (split, dir, lbl_dir) r)))) =
         map (\<lambda>n. Some (PStr (path_str (dir @ [n]))))
           (filter (\<lambda>n. is_file fs (dir @ [n]) \<and> lower (name_suffix n) \<in> EXTS) names)"
    using assms by (simp add: etq_split_calls etq_kwargs_image comp_def del: etq_split.simps)
  have b: "map line_name (outcome_lines (fst (snd (etq_split fs U (split, dir, lbl_dir) r)))) =
         filter (\<lambda>n. is_file fs (dir @ [n]) \<and> lower (name_suffix n) \<in> EXTS) names"
    using assms
    by (simp add: etq_split_directory etq_images_outcomes filter_map comp_def
        del: etq_split.simps)
  have c: "printed (fst (snd (etq_split fs U (split, dir, lbl_dir) r))) =
         Header split None # outcome_lines (fst (snd (etq_split fs U (split, dir, lbl_dir) r)))"
    using assms by (simp add: etq_split_directory etq_images_printed del: etq_split.simps)
  have d: "snd (snd (etq_split fs U (split, dir, lbl_dir) r)) = None"
    using assms by (simp add: etq_split_directory del: etq_split.simps)
  have e: "map (\<lambda>kw. map_of kw ''image_path'')
           (upload_calls (snd (subir_split fs U (split, dir) r))) =
         map (\<lambda>n. Some (PStr (path_str (dir @ [n])))) (filter (ends_with ''.jpg'') names)"
    using ex
    by (simp add: subir_split_present subir_images_calls glob subir_kwargs_image comp_def
        del: subir_split.simps)
  have f: "map line_name (outcome_lines (snd (subir_split fs U (split, dir) r))) =
         filter (ends_with ''.jpg'') names"
    using ex
    by (simp add: subir_split_present subir_images_outcomes glob comp_def
        del: subir_split.simps)
  show ?thesis
    by (intro conjI a b c d e f)
qed

theorem discovery_by_extension_witness:
  "demo_fs [''data'', ''train'', ''images''] =
     Some (Directory [''a.jpg'', ''b.PNG'', ''notes.md'', ''sub.jpg'']) \<and>
   map line_name (outcome_lines (fst (snd (etq_split demo_fs demo_remote
       (''train'', [''data'', ''train'', ''images''], [''data'', ''train'', ''labels'']) 0)))) =
     [''a.jpg'', ''b.PNG''] \<and>
   map line_name (outcome_lines (snd (subir_split demo_fs demo_remote
       (''train'', [''data'', ''train'', ''images'']) 0))) =
     [''a.jpg'', ''sub.jpg'']"
proof -
  have h: "demo_fs [''data'', ''train'', ''images''] =
             Some (Directory [''a.jpg'', ''b.PNG'', ''notes.md'', ''sub.jpg''])"
    by code_simp
  have f: "filter (\<lambda>n. is_file demo_fs ([''data'', ''train'', ''images''] @ [n]) \<and>
                       lower (name_suffix n) \<in> EXTS)
             [''a.jpg'', ''b.PNG'', ''notes.md'', ''sub.jpg''] = [''a.jpg'', ''b.PNG'']"
    by code_simp
  have g: "filter (ends_with ''.jpg'') [''a.jpg'', ''b.PNG'', ''notes.md'', ''sub.jpg''] =
             [''a.jpg'', ''sub.jpg'']"
    by code_simp
  show ?thesis
    using discovery_by_extension [where fs = demo_fs
        and dir = "[''data'', ''train'', ''images'']"
        and names = "[''a.jpg'', ''b.PNG'', ''notes.md'', ''sub.jpg'']"
        and lbl_dir = "[''data'', ''train'', ''labels'']"
        and U = demo_remote and split = "''train''" and r = 0] h
    unfolding f g by blast
qed

section \<open>Loops over several entries and several splits\<close>

lemma etq_images_append:
  "etq_images fs U s lbl (xs @ ys) r =
     (fst (etq_images fs U s lbl ys (fst (etq_images fs U s lbl xs r))),
      snd (etq_images fs U s lbl xs r)
        @ snd (etq_images fs U s lbl ys (fst (etq_images fs U s lbl xs r))))"
  by (induction xs arbitrary: r) (simp_all split: prod.splits)

lemma subir_images_append:
  "subir_images U s (xs @ ys) r =
     (fst (subir_images U s ys (fst (subir_images U s xs r))),
      snd (subir_images U s xs r) @ snd (subir_images U s ys (fst (subir_images U s xs r))))"
  by (induction xs arbitrary: r) (simp_all split: prod.splits)

lemma etq_image_failed:
  assumes "is_file fs a" "lower (path_suffix a) \<in> EXTS"
    and "U r (Upload [] (etq_kwargs fs s lbl a)) = (r', Raised e)"
  shows "etq_image fs U s lbl a r =
     (r', [Fs (Is_file a), Fs (Exists (etq_label lbl a)), Net (Upload [] (etq_kwargs fs s lbl a)),
           Print (Failure (path_name a) e)])"
  using assms by (simp add: etq_image_def Let_def)

lemma subir_image_failed:
  assumes "U r (Upload [] (subir_kwargs s a)) = (r', Raised e)"
  shows "subir_image U s a r =
     (r', [Net (Upload [] (subir_kwargs s a)), Print (Failure (path_name a) e)])"
  using assms by (simp add: subir_image_def)

section \<open>A failed upload does not stop a split\<close>

text \<open>
  C5. Let the entries of a split be \<open>pre @ a # post\<close> and let the upload of \<open>a\<close> raise, in
  the remote state reached after \<open>pre\<close>. Then the loop prints the failure of \<open>a\<close> and goes on
  with \<open>post\<close> from the state the failed call left: every entry of \<open>post\<close> that is uploaded at
  all (in \<^verbatim>\<open>img_etiquetas.py\<close> the files with a recognised extension, in \<^verbatim>\<open>subir.py\<close> every
  entry the glob yields) has its own call and its own line, whatever the remote answers.
\<close>

theorem failure_does_not_stop_split:
  "(is_file fs a \<and> lower (path_suffix a) \<in> EXTS \<and>
    U (fst (etq_images fs U s lbl pre r)) (Upload [] (etq_kwargs fs s lbl a)) = (r', Raised e)
    \<longrightarrow>
      etq_images fs U s lbl (pre @ a # post) r =
        (fst (etq_images fs U s lbl post r'),
         snd (etq_images fs U s lbl pre r)
         @ [Fs (Is_file a), Fs (Exists (etq_label lbl a)),
            Net (Upload [] (etq_kwargs fs s lbl a)), Print (Failure (path_name a) e)]
         @ snd (etq_images fs U s lbl post r')) \<and>
      upload_calls (snd (etq_images fs U s lbl post r')) =
        map (etq_kwargs fs s lbl)
          (filter (\<lambda>p. is_file fs p \<and> lower (path_suffix p) \<in> EXTS) post) \<and>
      map line_name (outcome_lines (snd (etq_images fs U s lbl post r'))) =
        map path_name (filter (\<lambda>p. is_file fs p \<and> lower (path_suffix p) \<in> EXTS) post))
   \<and>
   (U (fst (subir_images U s pre r)) (Upload [] (subir_kwargs s a)) = (r', Raised e)
    \<longrightarrow>
      subir_images U s (pre @ a # post) r =
        (fst (subir_images U s post r'),
         snd (subir_images U s pre r)
         @ [Net (Upload [] (subir_kwargs s a)), Print (Failure (path_name a) e)]
         @ snd (subir_images U s post r')) \<and>
      upload_calls (snd (subir_images U s post r')) = map (subir_kwargs s) post \<and>
      map line_name (outcome_lines (snd (subir_images U s post r'))) = map path_name post)"
proof (intro conjI impI)
  assume h: "is_file fs a \<and> lower (path_suffix a) \<in> EXTS \<and>
    U (fst (etq_images fs U s lbl pre r)) (Upload [] (etq_kwargs fs s lbl a)) = (r', Raised e)"
  then have one: "etq_image fs U s lbl a (fst (etq_images fs U s lbl pre r)) =
     (r', [Fs (Is_file a), Fs (Exists (etq_label lbl a)), Net (Upload [] (etq_kwargs fs s lbl a)),
           Print (Failure (path_name a) e)])"
    by (simp add: etq_image_failed)
  show "etq_images fs U s lbl (pre @ a # post) r =
        (fst (etq_images fs U s lbl post r'),
         snd (etq_images fs U s lbl pre r)
         @ [Fs (Is_file a), Fs (Exists (etq_label lbl a)),
            Net (Upload [] (etq_kwargs fs s lbl a)), Print (Failure (path_name a) e)]
         @ snd (etq_images fs U s lbl post r'))"
    by (simp add: etq_images_append one split: prod.splits)
next
  assume h: "U (fst (subir_images U s pre r)) (Upload [] (subir_kwargs s a)) = (r', Raised e)"
  then have one: "subir_image U s a (fst (subir_images U s pre r)) =
     (r', [Net (Upload [] (subir_kwargs s a)), Print (Failure (path_name a) e)])"
    by (simp add: subir_image_failed)
  show "subir_images U s (pre @ a # post) r =
        (fst (subir_images U s post r'),
         snd (subir_images U s pre r)
         @ [Net (Upload [] (subir_kwargs s a)), Print (Failure (path_name a) e)]
         @ snd (subir_images U s post r'))"
    by (simp add: subir_images_append one split: prod.splits)
qed (simp_all only: etq_images_calls etq_images_outcomes subir_images_calls subir_images_outcomes)

theorem failure_does_not_stop_split_witness:
  "is_file demo_fs [''data'', ''train'', ''images'', ''a.jpg''] \<and>
   lower (path_suffix [''data'', ''train'', ''images'', ''a.jpg'']) \<in> EXTS \<and>
   demo_remote 0 (Upload [] (etq_kwargs demo_fs ''train'' [''data'', ''train'', ''labels'']
      [''data'', ''train'', ''images'', ''a.jpg''])) = (1, Raised ''timeout'') \<and>
   map line_name (outcome_lines (snd (etq_images demo_fs demo_remote ''train''
      [''data'', ''train'', ''labels'']
      [[''data'', ''train'', ''images'', ''b.PNG''], [''data'', ''train'', ''images'', ''notes.md'']]
      1))) = [''b.PNG''] \<and>
   demo_remote 0 (Upload [] (subir_kwargs ''train'' [''data'', ''train'', ''images'', ''a.jpg'']))
     = (1, Raised ''timeout'') \<and>
   map line_name (outcome_lines (snd (subir_images demo_remote ''train''
      [[''data'', ''train'', ''images'', ''sub.jpg'']] 1))) = [''sub.jpg'']"
proof -
  have h1: "is_file demo_fs [''data'', ''train'', ''images'', ''a.jpg'']"
    by code_simp
  have h2: "lower (path_suffix [''data'', ''train'', ''images'', ''a.jpg'']) \<in> EXTS"
    by code_simp
  have h3: "demo_remote 0 (Upload [] (etq_kwargs demo_fs ''train'' [''data'', ''train'', ''labels'']
      [''data'', ''train'', ''images'', ''a.jpg''])) = (1, Raised ''timeout'')"
    by code_simp
  have h4: "demo_remote 0 (Upload [] (subir_kwargs ''train'' [''data'', ''train'', ''images'', ''a.jpg'']))
     = (1, Raised ''timeout'')"
    by code_simp
  have f: "map path_name (filter (\<lambda>p. is_file demo_fs p \<and> lower (path_suffix p) \<in> EXTS)
      [[''data'', ''train'', ''images'', ''b.PNG''], [''data'', ''train'', ''images'', ''notes.md'']])
      = [''b.PNG'']"
    by code_simp
  have g: "map path_name [[''data'', ''train'', ''images'', ''sub.jpg'']] = [''sub.jpg'']"
    by code_simp
  have t1: "map line_name (outcome_lines (snd (etq_images demo_fs demo_remote ''train''
      [''data'', ''train'', ''labels'']
      [[''data'', ''train'', ''images'', ''b.PNG''], [''data'', ''train'', ''images'', ''notes.md'']]
      1))) = [''b.PNG'']"
    using failure_does_not_stop_split [where fs = demo_fs and U = demo_remote
        and a = "[''data'', ''train'', ''images'', ''a.jpg'']" and pre = "[]"
        and post = "[[''data'', ''train'', ''images'', ''b.PNG''],
                     [''data'', ''train'', ''images'', ''notes.md'']]"
        and s = "''train''" and lbl = "[''data'', ''train'', ''labels'']"
        and r = 0 and r' = 1 and e = "''timeout''"]
      h1 h2 h3
    unfolding f by simp
  have t2: "map line_name (outcome_lines (snd (subir_images demo_remote ''train''
      [[''data'', ''train'', ''images'', ''sub.jpg'']] 1))) = [''sub.jpg'']"
    using failure_does_not_stop_split [where fs = demo_fs and U = demo_remote
        and a = "[''data'', ''train'', ''images'', ''a.jpg'']" and pre = "[]"
        and post = "[[''data'', ''train'', ''images'', ''sub.jpg'']]"
        and s = "''train''" and lbl = "[''data'', ''train'', ''labels'']"
        and r = 0 and r' = 1 and e = "''timeout''"]
      h4
    unfolding g by simp
  show ?thesis
    by (intro conjI h1 h2 h3 h4 t1 t2)
qed





section \<open>A missing image directory\<close>



section \<open>Counting the lines of the assets\<close>

lemma outcome_of_counts:
  "length (filter is_success (outcome_of e)) + length (filter is_failure (outcome_of e)) =
     length (outcome_of e)"
  by (cases e rule: outcome_of.cases) simp_all

lemma counts_total: "count_uploaded ev + count_failed ev = length (outcome_lines ev)"
proof (induction ev)
  case Nil
  then show ?case by (simp add: count_uploaded_def count_failed_def)
next
  case (Cons e ev)
  then show ?case
    using outcome_of_counts [of e] by (simp add: count_uploaded_def count_failed_def)
qed

lemma etq_split_outcomes_length:
  assumes "\<not> is_file fs img_dir"
  shows "length (outcome_lines (fst (snd (etq_split fs U (s, img_dir, lbl) r)))) =
           length (etq_discovered fs img_dir) \<and>
         snd (snd (etq_split fs U (s, img_dir, lbl) r)) = None"
proof (cases "fs img_dir")
  case None
  then show ?thesis
    by (simp add: path_exists_def etq_discovered_def)
next
  case (Some nd)
  show ?thesis
  proof (cases nd)
    case RegFile
    then show ?thesis using Some assms by (simp add: is_file_def)
  next
    case (Directory names)
    have "map line_name (outcome_lines (snd (etq_images fs U s lbl (map (\<lambda>n. img_dir @ [n]) names) r))) =
          map path_name (etq_discovered fs img_dir)"
      using Some Directory by (simp add: etq_images_outcomes etq_discovered_def)
    then have "length (outcome_lines (snd (etq_images fs U s lbl (map (\<lambda>n. img_dir @ [n]) names) r))) =
          length (etq_discovered fs img_dir)"
      by (rule map_eq_imp_length_eq)
    then show ?thesis
      using Some Directory by (simp add: etq_split_directory del: etq_split.simps)
  qed
qed

lemma etq_discovered_missing: "\<not> path_exists fs d \<Longrightarrow> etq_discovered fs d = []"
  by (simp add: path_exists_def etq_discovered_def)

lemma glob_jpg_missing: "\<not> path_exists fs d \<Longrightarrow> glob_jpg fs d = []"
  by (simp add: path_exists_def glob_jpg_def)

lemma etq_splits_outcomes_length:
  assumes "\<forall>s \<in> set ss. \<not> is_file fs (fst (snd s))"
  shows "length (outcome_lines (fst (snd (etq_splits fs U ss r)))) =
           sum_list (map (\<lambda>s. length (etq_discovered fs (fst (snd s)))) ss)"
  using assms
proof (induction ss arbitrary: r)
  case Nil
  then show ?case by simp
next
  case (Cons s ss)
  obtain n i l where s: "s = (n, i, l)"
    by (cases s) auto
  have nf: "\<not> is_file fs i"
    using Cons.prems s by simp
  obtain r1 e1 where one: "etq_split fs U (n, i, l) r = (r1, e1, None)"
    using etq_split_outcomes_length [OF nf, of U n l r]
    by (cases "etq_split fs U (n, i, l) r") auto
  have len: "length (outcome_lines e1) = length (etq_discovered fs i)"
    using etq_split_outcomes_length [OF nf, of U n l r] one by simp
  have rest: "length (outcome_lines (fst (snd (etq_splits fs U ss r1)))) =
           sum_list (map (\<lambda>s. length (etq_discovered fs (fst (snd s)))) ss)"
    using Cons.IH Cons.prems by simp
  have "fst (snd (etq_splits fs U (s # ss) r)) = e1 @ fst (snd (etq_splits fs U ss r1))"
    by (simp add: s one split: prod.splits del: etq_split.simps)
  then show ?case
    using rest len by (simp add: s)
qed

lemma subir_split_outcomes_length:
  "length (outcome_lines (snd (subir_split fs U (s, d) r))) = length (glob_jpg fs d)"
proof (cases "path_exists fs d")
  case True
  have "map line_name (outcome_lines (snd (subir_images U s (glob_jpg fs d) r))) =
          map path_name (glob_jpg fs d)"
    by (rule subir_images_outcomes)
  then have "length (outcome_lines (snd (subir_images U s (glob_jpg fs d) r))) =
          length (glob_jpg fs d)"
    by (rule map_eq_imp_length_eq)
  then show ?thesis
    using True by (simp add: subir_split_present del: subir_split.simps)
next
  case False
  then show ?thesis by (simp add: glob_jpg_missing)
qed

lemma subir_splits_outcomes_length:
  "length (outcome_lines (snd (subir_splits fs U ss r))) =
     sum_list (map (\<lambda>s. length (glob_jpg fs (snd s))) ss)"
proof (induction ss arbitrary: r)
  case Nil
  then show ?case by simp
next
  case (Cons s ss)
  obtain n d where s: "s = (n, d)"
    by (cases s) auto
  have "snd (subir_splits fs U (s # ss) r) =
          snd (subir_split fs U (n, d) r)
            @ snd (subir_splits fs U ss (fst (subir_split fs U (n, d) r)))"
    by (simp add: s split: prod.splits del: subir_split.simps)
  then show ?case
    using Cons.IH [of "fst (subir_split fs U (n, d) r)"] subir_split_outcomes_length [of fs U n d r]
    by (simp add: s)
qed

lemma sum_over_present:
  assumes "\<And>s. \<not> P s \<Longrightarrow> f s = (0::nat)"
  shows "sum_list (map f (filter P ss)) = sum_list (map f ss)"
  using assms by (induction ss) auto

text \<open>
  Where no path of an image directory is a regular file, the lines that report an asset as
  uploaded and the lines that report it as failed are together as many as the entries
  discovered in the image directories that exist, whatever the remote client answers. For
  \<^verbatim>\<open>img_etiquetas.py\<close> the entries discovered are the files with a recognised extension;
  for \<^verbatim>\<open>subir.py\<close>, where the equation needs no condition, they are the entries its glob
  yields.
\<close>

lemma report_counts_add_up:
  assumes "\<forall>s \<in> set ss. \<not> is_file fs (fst (snd s))"
  shows "count_uploaded (fst (snd (etq_splits fs U ss r))) +
           count_failed (fst (snd (etq_splits fs U ss r))) =
         sum_list (map (\<lambda>s. length (etq_discovered fs (fst (snd s))))
                     (filter (\<lambda>s. path_exists fs (fst (snd s))) ss)) \<and>
         count_uploaded (snd (subir_splits fs U ss' r)) +
           count_failed (snd (subir_splits fs U ss' r)) =
         sum_list (map (\<lambda>s. length (glob_jpg fs (snd s)))
                     (filter (\<lambda>s. path_exists fs (snd s)) ss'))"
proof -
  have a: "sum_list (map (\<lambda>s. length (etq_discovered fs (fst (snd s))))
                     (filter (\<lambda>s. path_exists fs (fst (snd s))) ss)) =
           sum_list (map (\<lambda>s. length (etq_discovered fs (fst (snd s)))) ss)"
    by (rule sum_over_present) (simp add: etq_discovered_missing)
  have b: "sum_list (map (\<lambda>s. length (glob_jpg fs (snd s)))
                     (filter (\<lambda>s. path_exists fs (snd s)) ss')) =
           sum_list (map (\<lambda>s. length (glob_jpg fs (snd s))) ss')"
    by (rule sum_over_present) (simp add: glob_jpg_missing)
  show ?thesis
    unfolding a b counts_total
    using etq_splits_outcomes_length [OF assms, of U r] subir_splits_outcomes_length [of fs U ss' r]
    by simp
qed

lemma report_counts_add_up_on_small_data_set:
  "list_all (\<lambda>s. \<not> is_file demo_fs (fst (snd s))) SPLITS \<and>
   count_uploaded (fst (snd (etq_splits demo_fs demo_remote SPLITS 0))) +
     count_failed (fst (snd (etq_splits demo_fs demo_remote SPLITS 0))) = 2 \<and>
   count_uploaded (snd (subir_splits demo_fs demo_remote splits 0)) +
     count_failed (snd (subir_splits demo_fs demo_remote splits 0)) = 2"
proof -
  have h: "\<forall>s \<in> set SPLITS. \<not> is_file demo_fs (fst (snd s))"
    by code_simp
  have a: "sum_list (map (\<lambda>s. length (etq_discovered demo_fs (fst (snd s))))
                     (filter (\<lambda>s. path_exists demo_fs (fst (snd s))) SPLITS)) = 2"
    by code_simp
  have b: "sum_list (map (\<lambda>s. length (glob_jpg demo_fs (snd s)))
                     (filter (\<lambda>s. path_exists demo_fs (snd s)) splits)) = 2"
    by code_simp
  show ?thesis
    using report_counts_add_up [OF h, of demo_remote 0 splits] h
    unfolding a b list_all_iff by blast
qed

text \<open>
  C2 does not hold of \<^verbatim>\<open>img_etiquetas.py\<close> in every run. The guard of the outer loop is
  \<^verbatim>\<open>img_dir.exists()\<close>, which a regular file passes, and \<^verbatim>\<open>iterdir()\<close> on a regular
  file raises outside every \<^verbatim>\<open>try\<close>. With a regular file in the place of the training
  image directory the script ends there with \<^verbatim>\<open>NotADirectoryError\<close>: the image of the
  validation split, whose directory exists, is never uploaded and never reported, so that
  no asset is reported where one is there to discover. \<^verbatim>\<open>subir.py\<close>, whose glob yields
  nothing on a regular file, reports that image.
\<close>

theorem report_counts_regular_file_for_directory:
  "path_exists misplaced_fs [''data'', ''train'', ''images''] \<and>
   is_file misplaced_fs [''data'', ''train'', ''images''] \<and>
   snd (snd (img_etiquetas demo_env misplaced_fs demo_remote 0)) =
     Uncaught (NotADirectoryError [''data'', ''train'', ''images'']) \<and>
   count_uploaded (fst (snd (img_etiquetas demo_env misplaced_fs demo_remote 0))) +
     count_failed (fst (snd (img_etiquetas demo_env misplaced_fs demo_remote 0))) = 0 \<and>
   sum_list (map (\<lambda>s. length (etq_discovered misplaced_fs (fst (snd s))))
               (filter (\<lambda>s. path_exists misplaced_fs (fst (snd s))) SPLITS)) = 1 \<and>
   outcome_lines (fst (snd (subir demo_env misplaced_fs demo_remote 0))) =
     [Success ''v.jpg'' None]"
  by code_simp

section \<open>The set-up calls and the whole scripts\<close>

lemma steps_simps [simp]:
  "steps [] = []"
  "steps (e # ev) = step_of e @ steps ev"
  "steps (ev @ ev') = steps ev @ steps ev'"
  by (simp_all add: steps_def)

lemma then_call_quiet:
  assumes "\<And>pos kw. c \<noteq> Upload pos kw"
  shows "upload_calls (fst (snd (then_call U c x))) = upload_calls (fst (snd x))"
    and "outcome_lines (fst (snd (then_call U c x))) = outcome_lines (fst (snd x))"
    and "printed (fst (snd (then_call U c x))) = printed (fst (snd x))"
    and "steps (fst (snd (then_call U c x))) = steps (fst (snd x))"
  using assms
  by (cases c; auto simp: then_call_def split: prod.splits option.splits reply.splits)+

lemma connect_quiet:
  "upload_calls (fst (snd (connect U key r))) = []"
  "outcome_lines (fst (snd (connect U key r))) = []"
  "printed (fst (snd (connect U key r))) = []"
  "steps (fst (snd (connect U key r))) = []"
  by (simp_all add: connect_def then_call_quiet)

lemma img_etiquetas_trace:
  "\<exists>c l. fst (snd (img_etiquetas env fs U r)) = c @ l \<and> quiet c \<and>
     (l = [] \<or> (\<exists>q. l = fst (snd (etq_splits fs U SPLITS q))))"
proof (cases "get_api_key env")
  case None
  then have "fst (snd (img_etiquetas env fs U r)) = [] @ []"
    by (simp add: img_etiquetas_def)
  then show ?thesis
    by (metis quiet_def upload_calls_simps(1) outcome_lines_simps(1) printed_simps(1) steps_simps(1))
next
  case (Some key)
  show ?thesis
  proof (cases "key = []")
    case True
    then have "fst (snd (img_etiquetas env fs U r)) = [] @ []"
      using Some by (simp add: img_etiquetas_def)
    then show ?thesis
      by (metis quiet_def upload_calls_simps(1) outcome_lines_simps(1) printed_simps(1) steps_simps(1))
  next
    case False
    obtain r1 ev1 x where c: "connect U key r = (r1, ev1, x)"
      by (cases "connect U key r") auto
    have q: "quiet ev1"
      using connect_quiet [of U key r] c by (simp add: quiet_def)
    show ?thesis
    proof (cases x)
      case None
      have "fst (snd (img_etiquetas env fs U r)) = ev1 @ fst (snd (etq_splits fs U SPLITS r1))"
        using Some False c None by (simp add: img_etiquetas_def finish_def split: prod.splits option.splits)
      then show ?thesis using q by blast
    next
      case (Some e)
      have "fst (snd (img_etiquetas env fs U r)) = ev1 @ []"
        using \<open>get_api_key env = Some key\<close> False c Some by (simp add: img_etiquetas_def)
      then show ?thesis using q by blast
    qed
  qed
qed

lemma subir_trace:
  "\<exists>c l. fst (snd (subir env fs U r)) = c @ l \<and> quiet c \<and>
     (l = [] \<or> (\<exists>q. l = snd (subir_splits fs U splits q)))"
proof (cases "get_api_key env")
  case None
  then have "fst (snd (subir env fs U r)) = [] @ []"
    by (simp add: subir_def)
  then show ?thesis
    by (metis quiet_def upload_calls_simps(1) outcome_lines_simps(1) printed_simps(1) steps_simps(1))
next
  case (Some key)
  show ?thesis
  proof (cases "key = []")
    case True
    then have "fst (snd (subir env fs U r)) = [] @ []"
      using Some by (simp add: subir_def)
    then show ?thesis
      by (metis quiet_def upload_calls_simps(1) outcome_lines_simps(1) printed_simps(1) steps_simps(1))
  next
    case False
    obtain r1 ev1 x where c: "connect U key r = (r1, ev1, x)"
      by (cases "connect U key r") auto
    have q: "quiet ev1"
      using connect_quiet [of U key r] c by (simp add: quiet_def)
    show ?thesis
    proof (cases x)
      case None
      have "fst (snd (subir env fs U r)) = ev1 @ snd (subir_splits fs U splits r1)"
        using Some False c None by (simp add: subir_def split: prod.splits)
      then show ?thesis using q by blast
    next
      case (Some e)
      have "fst (snd (subir env fs U r)) = ev1 @ []"
        using \<open>get_api_key env = Some key\<close> False c Some by (simp add: subir_def)
      then show ?thesis using q by blast
    qed
  qed
qed

section \<open>What the batch scripts print\<close>

lemma reported_in_step_append:
  assumes "reported_in_step a" "reported_in_step b"
  shows "reported_in_step (a @ b)"
  using assms by (simp add: reported_in_step_def)

lemma reported_in_step_quiet: "quiet c \<Longrightarrow> reported_in_step c"
  by (simp add: quiet_def reported_in_step_def)

lemma reported_in_step_Nil: "reported_in_step []"
  by (simp add: reported_in_step_def)

lemma etq_image_reported: "reported_in_step (snd (etq_image fs U s lbl p r))"
  by (auto simp: etq_image_def Let_def reported_in_step_def split: prod.splits reply.splits)

lemma subir_image_reported: "reported_in_step (snd (subir_image U s p r))"
  by (auto simp: subir_image_def reported_in_step_def split: prod.splits reply.splits)

lemma etq_images_reported: "reported_in_step (snd (etq_images fs U s lbl ps r))"
  by (induction ps arbitrary: r)
    (simp_all add: etq_images_snd reported_in_step_Nil reported_in_step_append etq_image_reported
      del: etq_images.simps(2))

lemma subir_images_reported: "reported_in_step (snd (subir_images U s ps r))"
  by (induction ps arbitrary: r)
    (simp_all add: subir_images_snd reported_in_step_Nil reported_in_step_append
      subir_image_reported del: subir_images.simps(2))

lemma reported_in_step_Cons:
  assumes "upload_of e = []" "outcome_of e = []" "step_of e = []"
  shows "reported_in_step (e # ev) = reported_in_step ev"
  using assms by (simp add: reported_in_step_def)

lemma etq_split_trace:
  "fst (snd (etq_split fs U (n, i, l) r)) =
     (if \<not> path_exists fs i then [Fs (Exists i), Print (Warning i (Some n))]
      else case iterdir fs i of
             Inl e \<Rightarrow> [Fs (Exists i), Print (Header n None), Fs (Iterdir i)]
           | Inr entries \<Rightarrow>
               [Fs (Exists i), Print (Header n None), Fs (Iterdir i)]
                 @ snd (etq_images fs U n l entries r))"
  by (simp split: prod.splits sum.splits)

lemma subir_split_trace:
  "snd (subir_split fs U (n, d) r) =
     (if \<not> path_exists fs d then [Fs (Exists d), Print (Warning d None)]
      else [Fs (Exists d), Print (Header n (Some d)), Fs (Glob d ''*.jpg'')]
             @ snd (subir_images U n (glob_jpg fs d) r))"
  by (simp split: prod.splits)

lemma etq_split_reported: "reported_in_step (fst (snd (etq_split fs U s r)))"
proof -
  obtain n i l where s: "s = (n, i, l)"
    by (cases s) auto
  show ?thesis
    unfolding s etq_split_trace
    by (simp add: reported_in_step_Cons reported_in_step_Nil etq_images_reported
        split: sum.splits)
qed

lemma subir_split_reported: "reported_in_step (snd (subir_split fs U s r))"
proof -
  obtain n d where s: "s = (n, d)"
    by (cases s) auto
  show ?thesis
    unfolding s subir_split_trace
    by (simp add: reported_in_step_Cons reported_in_step_Nil subir_images_reported)
qed

lemma etq_splits_reported: "reported_in_step (fst (snd (etq_splits fs U ss r)))"
proof (induction ss arbitrary: r)
  case Nil
  then show ?case by (simp add: reported_in_step_Nil)
next
  case (Cons s ss)
  obtain r1 e1 x where one: "etq_split fs U s r = (r1, e1, x)"
    by (cases "etq_split fs U s r") auto
  have e1: "reported_in_step e1"
    using etq_split_reported [of fs U s r] one by simp
  show ?case
  proof (cases x)
    case None
    have "fst (snd (etq_splits fs U (s # ss) r)) = e1 @ fst (snd (etq_splits fs U ss r1))"
      using one None by (simp split: prod.splits)
    then show ?thesis
      using e1 Cons.IH [of r1] by (simp add: reported_in_step_append)
  next
    case (Some e)
    then show ?thesis using one e1 by simp
  qed
qed

lemma subir_splits_reported: "reported_in_step (snd (subir_splits fs U ss r))"
proof (induction ss arbitrary: r)
  case Nil
  then show ?case by (simp add: reported_in_step_Nil)
next
  case (Cons s ss)
  have "snd (subir_splits fs U (s # ss) r) =
          snd (subir_split fs U s r) @ snd (subir_splits fs U ss (fst (subir_split fs U s r)))"
    by (simp split: prod.splits)
  then show ?case
    using subir_split_reported [of fs U s r] Cons.IH [of "fst (subir_split fs U s r)"]
    by (simp add: reported_in_step_append)
qed

lemma outcome_lines_no_summary: "Summary u f \<notin> set (outcome_lines ev)"
proof (induction ev)
  case Nil
  then show ?case by simp
next
  case (Cons e ev)
  have "Summary u f \<notin> set (outcome_of e)"
    by (cases e rule: outcome_of.cases) simp_all
  then show ?case using Cons by simp
qed

lemma subir_image_printed:
  "printed (snd (subir_image U s p r)) = outcome_lines (snd (subir_image U s p r))"
  by (auto simp: subir_image_def split: prod.splits reply.splits)

lemma subir_images_printed:
  "printed (snd (subir_images U s ps r)) = outcome_lines (snd (subir_images U s ps r))"
  by (induction ps arbitrary: r)
    (simp_all add: subir_images_snd subir_image_printed del: subir_images.simps(2))

lemma etq_split_no_summary: "Summary u f \<notin> set (printed (fst (snd (etq_split fs U s r))))"
proof -
  obtain n i l where s: "s = (n, i, l)"
    by (cases s) auto
  show ?thesis
    unfolding s etq_split_trace
    by (simp add: etq_images_printed outcome_lines_no_summary split: sum.splits)
qed

lemma subir_split_no_summary: "Summary u f \<notin> set (printed (snd (subir_split fs U s r)))"
proof -
  obtain n d where s: "s = (n, d)"
    by (cases s) auto
  show ?thesis
    unfolding s subir_split_trace
    by (simp add: subir_images_printed outcome_lines_no_summary)
qed

lemma etq_splits_no_summary: "Summary u f \<notin> set (printed (fst (snd (etq_splits fs U ss r))))"
proof (induction ss arbitrary: r)
  case Nil
  then show ?case by simp
next
  case (Cons s ss)
  obtain r1 e1 x where one: "etq_split fs U s r = (r1, e1, x)"
    by (cases "etq_split fs U s r") auto
  have e1: "Summary u f \<notin> set (printed e1)"
    using etq_split_no_summary [of u f fs U s r] one by simp
  show ?case
  proof (cases x)
    case None
    have "fst (snd (etq_splits fs U (s # ss) r)) = e1 @ fst (snd (etq_splits fs U ss r1))"
      using one None by (simp split: prod.splits)
    then show ?thesis
      using e1 Cons.IH [of r1] by simp
  next
    case (Some e)
    then show ?thesis using one e1 by simp
  qed
qed

lemma subir_splits_no_summary: "Summary u f \<notin> set (printed (snd (subir_splits fs U ss r)))"
proof (induction ss arbitrary: r)
  case Nil
  then show ?case by simp
next
  case (Cons s ss)
  have "snd (subir_splits fs U (s # ss) r) =
          snd (subir_split fs U s r) @ snd (subir_splits fs U ss (fst (subir_split fs U s r)))"
    by (simp split: prod.splits)
  then show ?case
    using subir_split_no_summary [of u f fs U s r] Cons.IH [of "fst (subir_split fs U s r)"]
    by simp
qed

text \<open>
  C9, as the claim states it, fails: neither batch script prints a summary. In the run of
  \<^verbatim>\<open>img_etiquetas.py\<close> on the small data set, where one upload fails and one succeeds,
  no line that is printed is a summary, and the same holds for \<^verbatim>\<open>subir.py\<close>.
\<close>

theorem no_final_summary_counterexample:
  "\<not> (\<exists>u f. Summary u f \<in> set (printed (fst (snd (img_etiquetas demo_env demo_fs demo_remote 0)))))
   \<and> \<not> (\<exists>u f. Summary u f \<in> set (printed (fst (snd (subir demo_env demo_fs demo_remote 0)))))"
proof -
  have a: "printed (fst (snd (img_etiquetas demo_env demo_fs demo_remote 0))) =
     [Header ''train'' None, Failure ''a.jpg'' ''timeout'', Success ''b.PNG'' (Some False),
      Header ''valid'' None, Warning [''data'', ''test'', ''images''] (Some ''test'')]"
    by code_simp
  have b: "printed (fst (snd (subir demo_env demo_fs demo_remote 0))) =
     [Header ''train'' (Some [''data'', ''train'', ''images'']),
      Failure ''a.jpg'' ''timeout'', Success ''sub.jpg'' None,
      Header ''valid'' (Some [''data'', ''val'', ''images'']),
      Warning [''data'', ''test'', ''images''] None]"
    by code_simp
  show ?thesis
    unfolding a b by simp
qed

text \<open>
  C9, amended. In every run of either batch script, each upload call is followed at once
  by the line that reports its outcome, a success or a failure, before the next call is
  made: the calls and the lines of the assets alternate, one line per call. No summary
  is printed, whether assets failed or not.
\<close>

theorem outcomes_reported_in_step:
  "reported_in_step (fst (snd (img_etiquetas env fs U r))) \<and>
   (\<forall>u f. Summary u f \<notin> set (printed (fst (snd (img_etiquetas env fs U r))))) \<and>
   reported_in_step (fst (snd (subir env fs U r))) \<and>
   (\<forall>u f. Summary u f \<notin> set (printed (fst (snd (subir env fs U r)))))"
proof -
  obtain c l where e: "fst (snd (img_etiquetas env fs U r)) = c @ l" "quiet c"
      "l = [] \<or> (\<exists>q. l = fst (snd (etq_splits fs U SPLITS q)))"
    using img_etiquetas_trace [of env fs U r] by blast
  obtain c' l' where s: "fst (snd (subir env fs U r)) = c' @ l'" "quiet c'"
      "l' = [] \<or> (\<exists>q. l' = snd (subir_splits fs U splits q))"
    using subir_trace [of env fs U r] by blast
  have l: "reported_in_step l" "\<forall>u f. Summary u f \<notin> set (printed l)"
    using e(3) by (auto simp: reported_in_step_Nil etq_splits_reported etq_splits_no_summary)
  have l': "reported_in_step l'" "\<forall>u f. Summary u f \<notin> set (printed l')"
    using s(3) by (auto simp: reported_in_step_Nil subir_splits_reported subir_splits_no_summary)
  have c: "printed c = []" "printed c' = []"
    using e(2) s(2) by (simp_all add: quiet_def)
  show ?thesis
    unfolding e(1) s(1)
    using l l' c e(2) s(2)
    by (simp add: reported_in_step_append reported_in_step_quiet)
qed

theorem outcomes_reported_in_step_witness:
  "steps (fst (snd (img_etiquetas demo_env demo_fs demo_remote 0))) =
     [Net (Upload [] [(''image_path'', PStr ''data/train/images/a.jpg''), (''split'', PStr ''train''),
        (''num_retry_uploads'', PInt 3), (''annotation_path'', PStr ''data/train/labels/a.txt'')]),
      Print (Failure ''a.jpg'' ''timeout''),
      Net (Upload [] [(''image_path'', PStr ''data/train/images/b.PNG''), (''split'', PStr ''train''),
        (''num_retry_uploads'', PInt 3)]),
      Print (Success ''b.PNG'' (Some False))]"
proof -
  have a: "upload_calls (fst (snd (img_etiquetas demo_env demo_fs demo_remote 0))) =
     [[(''image_path'', PStr ''data/train/images/a.jpg''), (''split'', PStr ''train''),
        (''num_retry_uploads'', PInt 3), (''annotation_path'', PStr ''data/train/labels/a.txt'')],
      [(''image_path'', PStr ''data/train/images/b.PNG''), (''split'', PStr ''train''),
        (''num_retry_uploads'', PInt 3)]]"
    by code_simp
  have b: "outcome_lines (fst (snd (img_etiquetas demo_env demo_fs demo_remote 0))) =
     [Failure ''a.jpg'' ''timeout'', Success ''b.PNG'' (Some False)]"
    by code_simp
  show ?thesis
    using outcomes_reported_in_step [of demo_env demo_fs demo_remote 0]
    unfolding reported_in_step_def a b by simp
qed

section \<open>What an upload call of a batch script carries\<close>

lemma in_upload_calls: "Net (Upload pos kw) \<in> set ev \<Longrightarrow> kw \<in> set (upload_calls ev)"
  by (induction ev) auto

lemma etq_image_uploads:
  "Net (Upload pos kw) \<in> set (snd (etq_image fs U s lbl p r)) \<Longrightarrow>
   pos = [] \<and> kw = etq_kwargs fs s lbl p"
  by (auto simp: etq_image_def Let_def split: if_splits prod.splits reply.splits)

lemma subir_image_uploads:
  "Net (Upload pos kw) \<in> set (snd (subir_image U s p r)) \<Longrightarrow> pos = [] \<and> kw = subir_kwargs s p"
  by (auto simp: subir_image_def split: prod.splits reply.splits)

lemma etq_images_uploads:
  "Net (Upload pos kw) \<in> set (snd (etq_images fs U s lbl ps r)) \<Longrightarrow>
   pos = [] \<and> (\<exists>p. kw = etq_kwargs fs s lbl p)"
proof (induction ps arbitrary: r)
  case Nil
  then show ?case by simp
next
  case (Cons p ps)
  then show ?case
    using etq_image_uploads [of pos kw fs U s lbl p r]
    by (auto simp: etq_images_snd simp del: etq_images.simps(2))
qed

lemma subir_images_uploads:
  "Net (Upload pos kw) \<in> set (snd (subir_images U s ps r)) \<Longrightarrow>
   pos = [] \<and> (\<exists>p. kw = subir_kwargs s p)"
proof (induction ps arbitrary: r)
  case Nil
  then show ?case by simp
next
  case (Cons p ps)
  then show ?case
    using subir_image_uploads [of pos kw U s p r]
    by (auto simp: subir_images_snd simp del: subir_images.simps(2))
qed

lemma etq_split_uploads:
  assumes "Net (Upload pos kw) \<in> set (fst (snd (etq_split fs U s r)))"
  shows "pos = [] \<and> (\<exists>n l p. kw = etq_kwargs fs n l p)"
proof -
  obtain n i l where s: "s = (n, i, l)"
    by (cases s) auto
  have inner: "pos = [] \<and> (\<exists>n l p. kw = etq_kwargs fs n l p)"
    if "Net (Upload pos kw) \<in> set (snd (etq_images fs U n l entries r))" for entries
    using etq_images_uploads [OF that] by blast
  show ?thesis
    using assms inner unfolding s etq_split_trace
    by (auto split: if_splits sum.splits)
qed

lemma subir_split_uploads:
  assumes "Net (Upload pos kw) \<in> set (snd (subir_split fs U s r))"
  shows "pos = [] \<and> (\<exists>n p. kw = subir_kwargs n p)"
proof -
  obtain n d where s: "s = (n, d)"
    by (cases s) auto
  have inner: "pos = [] \<and> (\<exists>n p. kw = subir_kwargs n p)"
    if "Net (Upload pos kw) \<in> set (snd (subir_images U n (glob_jpg fs d) r))"
    using subir_images_uploads [OF that] by blast
  show ?thesis
    using assms inner unfolding s subir_split_trace
    by (auto split: if_splits)
qed

lemma etq_splits_uploads:
  "Net (Upload pos kw) \<in> set (fst (snd (etq_splits fs U ss r))) \<Longrightarrow>
   pos = [] \<and> (\<exists>n l p. kw = etq_kwargs fs n l p)"
proof (induction ss arbitrary: r)
  case Nil
  then show ?case by simp
next
  case (Cons s ss)
  obtain r1 e1 x where one: "etq_split fs U s r = (r1, e1, x)"
    by (cases "etq_split fs U s r") auto
  have e1: "Net (Upload pos kw) \<in> set e1 \<Longrightarrow> pos = [] \<and> (\<exists>n l p. kw = etq_kwargs fs n l p)"
    using etq_split_uploads [of pos kw fs U s r] one by simp
  show ?case
  proof (cases x)
    case None
    have "fst (snd (etq_splits fs U (s # ss) r)) = e1 @ fst (snd (etq_splits fs U ss r1))"
      using one None by (simp split: prod.splits)
    then show ?thesis
      using e1 Cons.IH [of r1] Cons.prems by auto
  next
    case (Some e)
    then show ?thesis using one e1 Cons.prems by simp
  qed
qed

lemma subir_splits_uploads:
  "Net (Upload pos kw) \<in> set (snd (subir_splits fs U ss r)) \<Longrightarrow>
   pos = [] \<and> (\<exists>n p. kw = subir_kwargs n p)"
proof (induction ss arbitrary: r)
  case Nil
  then show ?case by simp
next
  case (Cons s ss)
  have "snd (subir_splits fs U (s # ss) r) =
          snd (subir_split fs U s r) @ snd (subir_splits fs U ss (fst (subir_split fs U s r)))"
    by (simp split: prod.splits)
  then show ?case
    using subir_split_uploads [of pos kw fs U s r] Cons.IH [of "fst (subir_split fs U s r)"]
      Cons.prems
    by auto
qed

lemma etq_kwargs_keys:
  "(map fst (etq_kwargs fs n l p) = [''image_path'', ''split'', ''num_retry_uploads''] \<or>
    map fst (etq_kwargs fs n l p) =
      [''image_path'', ''split'', ''num_retry_uploads'', ''annotation_path'']) \<and>
   map_of (etq_kwargs fs n l p) ''num_retry_uploads'' = Some (PInt 3)"
  by (simp add: etq_kwargs_def Let_def)

lemma subir_kwargs_keys:
  "map fst (subir_kwargs n p) = [''image_path'', ''split'', ''num_retry_uploads''] \<and>
   map_of (subir_kwargs n p) ''num_retry_uploads'' = Some (PInt 3)"
  by (simp add: subir_kwargs_def)

text \<open>
  C10. Whatever the environment, the file system and the remote client are, every upload
  call of a batch run has no positional argument and exactly the keywords
  \<^verbatim>\<open>image_path\<close>, \<^verbatim>\<open>split\<close> and \<^verbatim>\<open>num_retry_uploads\<close> (which is 3), in
  \<^verbatim>\<open>img_etiquetas.py\<close> possibly followed by \<^verbatim>\<open>annotation_path\<close>, the path of the
  label. A batch name, tags, a sequence number or a sequence size are never among them.
\<close>

theorem batch_upload_keywords:
  "(\<forall>pos kw. Net (Upload pos kw) \<in> set (fst (snd (img_etiquetas env fs U r))) \<longrightarrow>
      pos = [] \<and>
      (map fst kw = [''image_path'', ''split'', ''num_retry_uploads''] \<or>
       map fst kw = [''image_path'', ''split'', ''num_retry_uploads'', ''annotation_path'']) \<and>
      map_of kw ''num_retry_uploads'' = Some (PInt 3)) \<and>
   (\<forall>pos kw. Net (Upload pos kw) \<in> set (fst (snd (subir env fs U r))) \<longrightarrow>
      pos = [] \<and>
      map fst kw = [''image_path'', ''split'', ''num_retry_uploads''] \<and>
      map_of kw ''num_retry_uploads'' = Some (PInt 3))"
proof (intro conjI allI impI)
  fix pos kw
  assume a: "Net (Upload pos kw) \<in> set (fst (snd (img_etiquetas env fs U r)))"
  obtain c l where e: "fst (snd (img_etiquetas env fs U r)) = c @ l" "quiet c"
      "l = [] \<or> (\<exists>q. l = fst (snd (etq_splits fs U SPLITS q)))"
    using img_etiquetas_trace [of env fs U r] by blast
  have "Net (Upload pos kw) \<notin> set c"
    using in_upload_calls [of pos kw c] e(2) by (auto simp: quiet_def)
  then have "Net (Upload pos kw) \<in> set l"
    using a e(1) by simp
  then obtain q where "Net (Upload pos kw) \<in> set (fst (snd (etq_splits fs U SPLITS q)))"
    using e(3) by auto
  then have k: "pos = [] \<and> (\<exists>n l p. kw = etq_kwargs fs n l p)"
    by (rule etq_splits_uploads)
  show "pos = []"
    using k by simp
  show "map fst kw = [''image_path'', ''split'', ''num_retry_uploads''] \<or>
       map fst kw = [''image_path'', ''split'', ''num_retry_uploads'', ''annotation_path'']"
    using k etq_kwargs_keys by blast
  show "map_of kw ''num_retry_uploads'' = Some (PInt 3)"
    using k etq_kwargs_keys by blast
next
  fix pos kw
  assume a: "Net (Upload pos kw) \<in> set (fst (snd (subir env fs U r)))"
  obtain c l where e: "fst (snd (subir env fs U r)) = c @ l" "quiet c"
      "l = [] \<or> (\<exists>q. l = snd (subir_splits fs U splits q))"
    using subir_trace [of env fs U r] by blast
  have "Net (Upload pos kw) \<notin> set c"
    using in_upload_calls [of pos kw c] e(2) by (auto simp: quiet_def)
  then have "Net (Upload pos kw) \<in> set l"
    using a e(1) by simp
  then obtain q where "Net (Upload pos kw) \<in> set (snd (subir_splits fs U splits q))"
    using e(3) by auto
  then have k: "pos = [] \<and> (\<exists>n p. kw = subir_kwargs n p)"
    by (rule subir_splits_uploads)
  show "pos = []"
    using k by simp
  show "map fst kw = [''image_path'', ''split'', ''num_retry_uploads'']"
    using k subir_kwargs_keys by blast
  show "map_of kw ''num_retry_uploads'' = Some (PInt 3)"
    using k subir_kwargs_keys by blast
qed

theorem batch_upload_keywords_witness:
  "Net (Upload [] [(''image_path'', PStr ''data/train/images/a.jpg''), (''split'', PStr ''train''),
        (''num_retry_uploads'', PInt 3), (''annotation_path'', PStr ''data/train/labels/a.txt'')])
     \<in> set (fst (snd (img_etiquetas demo_env demo_fs demo_remote 0))) \<and>
   map_of [(''image_path'', PStr ''data/train/images/a.jpg''), (''split'', PStr ''train''),
        (''num_retry_uploads'', PInt 3), (''annotation_path'', PStr ''data/train/labels/a.txt'')]
     ''num_retry_uploads'' = Some (PInt 3) \<and>
   Net (Upload [] [(''image_path'', PStr ''data/train/images/sub.jpg''), (''split'', PStr ''train''),
        (''num_retry_uploads'', PInt 3)])
     \<in> set (fst (snd (subir demo_env demo_fs demo_remote 0))) \<and>
   map fst [(''image_path'', PStr ''data/train/images/sub.jpg''), (''split'', PStr ''train''),
        (''num_retry_uploads'', PInt 3)] = [''image_path'', ''split'', ''num_retry_uploads'']"
proof -
  have a: "Net (Upload [] [(''image_path'', PStr ''data/train/images/a.jpg''), (''split'', PStr ''train''),
        (''num_retry_uploads'', PInt 3), (''annotation_path'', PStr ''data/train/labels/a.txt'')])
     \<in> set (fst (snd (img_etiquetas demo_env demo_fs demo_remote 0)))"
    by code_simp
  have b: "Net (Upload [] [(''image_path'', PStr ''data/train/images/sub.jpg''), (''split'', PStr ''train''),
        (''num_retry_uploads'', PInt 3)])
     \<in> set (fst (snd (subir demo_env demo_fs demo_remote 0)))"
    by code_simp
  show ?thesis
    using batch_upload_keywords [of demo_env demo_fs demo_remote 0] a b
    by blast
qed

section \<open>A missing credential\<close>

lemma get_api_key_unset:
  "env ''ROBOFLOW_API_KEY'' = None \<Longrightarrow> env ''roboflow_api_key'' = None \<Longrightarrow>
   get_api_key env = None"
  by (simp add: get_api_key_def py_or_def truthy_def)

lemma then_call_start:
  "\<exists>rest. fst (snd (then_call U c (r, [], None))) = Net c # rest"
  by (auto simp: then_call_def split: option.splits prod.splits reply.splits)

lemma then_call_keeps_head:
  assumes "\<exists>rest. fst (snd x) = e # rest"
  shows "\<exists>rest. fst (snd (then_call U c x)) = e # rest"
  using assms by (cases x) (auto simp: then_call_def split: option.splits prod.splits reply.splits)

lemma then_print_keeps_head:
  assumes "\<exists>rest. fst (snd x) = e # rest"
  shows "\<exists>rest. fst (snd (then_print U c x)) = e # rest"
  using assms by (cases x) (auto simp: then_print_def split: option.splits prod.splits reply.splits)

lemma upload_py_first_event:
  "\<exists>rest. fst (snd (upload_py env U r)) = Net (New_client (opt_str (env ''roboflow_api_key''))) # rest"
proof -
  have "fst (snd (finish x)) = fst (snd x)" for x :: "'a \<times> event list \<times> exn option"
    by (cases x) (auto simp: finish_def split: option.splits)
  then show ?thesis
    unfolding upload_py_def
    by (simp add: then_call_keeps_head then_print_keeps_head then_call_start)
qed

text \<open>
  C3, as the claim states it, fails on \<^verbatim>\<open>upload.py\<close>: with both variables unset the
  script makes its calls to the remote client, the first of them with \<^verbatim>\<open>None\<close> for a key,
  and with a client that accepts them it ends normally.
\<close>

theorem missing_credential_upload_py_counterexample:
  "no_env ''ROBOFLOW_API_KEY'' = None \<and> no_env ''roboflow_api_key'' = None \<and>
   filter is_net (fst (snd (upload_py no_env demo_remote 0))) \<noteq> [] \<and>
   snd (snd (upload_py no_env demo_remote 0)) = Exit 0"
  by code_simp

text \<open>
  C3, amended. In \<^verbatim>\<open>img_etiquetas.py\<close>, \<^verbatim>\<open>subir.py\<close> and \<^verbatim>\<open>subir2.py\<close>, when both
  variables are unset the run ends at the credential check, with \<^verbatim>\<open>RuntimeError\<close>,
  \<^verbatim>\<open>ValueError\<close> and exit code 2 respectively: the trace holds no access to the file
  system and no call to the remote client, and the remote state is untouched.
  \<^verbatim>\<open>upload.py\<close> has no such check: its first act is to build the client with whatever the
  lower-case variable holds.
\<close>

theorem missing_credential_fails_first:
  assumes "env ''ROBOFLOW_API_KEY'' = None" and "env ''roboflow_api_key'' = None"
  shows "img_etiquetas env fs U r =
           (r, [], Uncaught (RuntimeError ''No se encontro ROBOFLOW_API_KEY en el .env'')) \<and>
         subir env fs U r = (r, [], Uncaught (ValueError ''No se encontro la API Key. Define ROBOFLOW_API_KEY en tu archivo .env'')) \<and>
         main env fs resolve U a r = (r, [Stderr E_no_api_key], Exit 2) \<and>
         (\<exists>rest. fst (snd (upload_py env U r)) = Net (New_client PNone) # rest)"
proof -
  have k: "get_api_key env = None"
    using assms by (rule get_api_key_unset)
  have u: "\<exists>rest. fst (snd (upload_py env U r)) = Net (New_client PNone) # rest"
    using upload_py_first_event [of env U r] assms(2) by (simp add: opt_str_def)
  show ?thesis
    using u by (simp add: img_etiquetas_def subir_def main_def k)
qed

theorem missing_credential_fails_first_witness:
  "no_env ''ROBOFLOW_API_KEY'' = None \<and> no_env ''roboflow_api_key'' = None \<and>
   img_etiquetas no_env demo_fs demo_remote 0 =
     (0, [], Uncaught (RuntimeError ''No se encontro ROBOFLOW_API_KEY en el .env'')) \<and>
   subir no_env demo_fs demo_remote 0 = (0, [], Uncaught (ValueError ''No se encontro la API Key. Define ROBOFLOW_API_KEY en tu archivo .env'')) \<and>
   main no_env demo_fs demo_resolve demo_remote demo_args 0 = (0, [Stderr E_no_api_key], Exit 2)"
proof -
  have h1: "no_env ''ROBOFLOW_API_KEY'' = None" and h2: "no_env ''roboflow_api_key'' = None"
    by (simp_all add: no_env_def)
  show ?thesis
    using missing_credential_fails_first [OF h1 h2, of demo_fs demo_remote 0 demo_resolve demo_args]
      h1 h2
    by blast
qed

section \<open>The exit codes of subir2.py\<close>

lemma main_checks_pass:
  assumes "get_api_key env = Some key" "key \<noteq> []" "arg_workspace a = Some w" "w \<noteq> []"
    and "arg_project a = Some p" "p \<noteq> []"
    and "path_exists fs (resolve (arg_image a))" "is_file fs (resolve (arg_image a))"
  shows "snd (snd (main env fs resolve U a r)) =
           snd (snd (main_connect U a key w p (resolve (arg_image a)) r))"
  using assms by (simp add: main_def Let_def split: prod.splits)

lemma main_upload_status:
  "snd (snd (main_upload U a image_path r)) =
     (case snd (U r (Upload [] (upload_kwargs a image_path))) of
        Raised e \<Rightarrow> Exit 7
      | Returned resp \<Rightarrow> (case find_link resp of Inl x \<Rightarrow> Exit 7 | Inr link \<Rightarrow> Exit 0))"
  by (simp add: main_upload_def Let_def split: prod.splits reply.splits sum.splits)

text \<open>
  The exit code of \<^verbatim>\<open>main()\<close>, check by check in the order of the source: 2 when the
  credential, the workspace or the project is missing or empty; then 3 when the resolved
  image path does not exist or is not a file; then 4, 5 and 6 when the construction of the
  client, the look-up of the workspace or the look-up of the project raises; then 7 when
  the upload call raises; and 0 when the upload call returns and the inspection of its
  response for a link, which is inside the same \<^verbatim>\<open>try\<close>, does not raise: that is for
  every value that is not a dictionary and for every dictionary whose \<^verbatim>\<open>image\<close> entry is
  absent or a dictionary.
\<close>

lemma exit_codes:
  "(\<not> truthy (get_api_key env) \<or> \<not> truthy (arg_workspace a) \<or> \<not> truthy (arg_project a) \<longrightarrow>
      snd (snd (main env fs resolve U a r)) = Exit 2) \<and>
   (get_api_key env = Some key \<and> key \<noteq> [] \<and> arg_workspace a = Some w \<and> w \<noteq> [] \<and>
    arg_project a = Some p \<and> p \<noteq> [] \<longrightarrow>
      (\<not> (path_exists fs (resolve (arg_image a)) \<and> is_file fs (resolve (arg_image a))) \<longrightarrow>
         snd (snd (main env fs resolve U a r)) = Exit 3) \<and>
      (path_exists fs (resolve (arg_image a)) \<and> is_file fs (resolve (arg_image a)) \<longrightarrow>
         (U r (New_client (PStr key)) = (r1, Raised e1) \<longrightarrow>
            snd (snd (main env fs resolve U a r)) = Exit 4) \<and>
         (U r (New_client (PStr key)) = (r1, Returned v1) \<longrightarrow>
            (U r1 (Workspace (Some w)) = (r2, Raised e2) \<longrightarrow>
               snd (snd (main env fs resolve U a r)) = Exit 5) \<and>
            (U r1 (Workspace (Some w)) = (r2, Returned v2) \<longrightarrow>
               (U r2 (Project p) = (r3, Raised e3) \<longrightarrow>
                  snd (snd (main env fs resolve U a r)) = Exit 6) \<and>
               (U r2 (Project p) = (r3, Returned v3) \<longrightarrow>
                  (U r3 (Upload [] (upload_kwargs a (resolve (arg_image a)))) = (r4, Raised e4) \<longrightarrow>
                     snd (snd (main env fs resolve U a r)) = Exit 7) \<and>
                  (U r3 (Upload [] (upload_kwargs a (resolve (arg_image a)))) = (r4, Returned resp) \<and>
                   find_link resp = Inr link \<longrightarrow>
                     snd (snd (main env fs resolve U a r)) = Exit 0))))))"
proof (intro conjI impI)
  assume "\<not> truthy (get_api_key env) \<or> \<not> truthy (arg_workspace a) \<or> \<not> truthy (arg_project a)"
  then show "snd (snd (main env fs resolve U a r)) = Exit 2"
    by (auto simp: main_def truthy_def Let_def split: option.splits prod.splits)
next
  assume c: "get_api_key env = Some key \<and> key \<noteq> [] \<and> arg_workspace a = Some w \<and> w \<noteq> [] \<and>
    arg_project a = Some p \<and> p \<noteq> []"
    and "\<not> (path_exists fs (resolve (arg_image a)) \<and> is_file fs (resolve (arg_image a)))"
  then show "snd (snd (main env fs resolve U a r)) = Exit 3"
    by (auto simp: main_def Let_def)
next
  assume c: "get_api_key env = Some key \<and> key \<noteq> [] \<and> arg_workspace a = Some w \<and> w \<noteq> [] \<and>
    arg_project a = Some p \<and> p \<noteq> []"
    and f: "path_exists fs (resolve (arg_image a)) \<and> is_file fs (resolve (arg_image a))"
  have m: "snd (snd (main env fs resolve U a r)) =
           snd (snd (main_connect U a key w p (resolve (arg_image a)) r))"
    using c f by (simp add: main_checks_pass)
  {
    assume "U r (New_client (PStr key)) = (r1, Raised e1)"
    then show "snd (snd (main env fs resolve U a r)) = Exit 4"
      unfolding m by (simp add: main_connect_def)
  }
  assume i: "U r (New_client (PStr key)) = (r1, Returned v1)"
  {
    assume "U r1 (Workspace (Some w)) = (r2, Raised e2)"
    then show "snd (snd (main env fs resolve U a r)) = Exit 5"
      unfolding m using i by (simp add: main_connect_def)
  }
  assume j: "U r1 (Workspace (Some w)) = (r2, Returned v2)"
  {
    assume "U r2 (Project p) = (r3, Raised e3)"
    then show "snd (snd (main env fs resolve U a r)) = Exit 6"
      unfolding m using i j by (simp add: main_connect_def)
  }
  assume k: "U r2 (Project p) = (r3, Returned v3)"
  have n: "snd (snd (main env fs resolve U a r)) =
           snd (snd (main_upload U a (resolve (arg_image a)) r3))"
    unfolding m using i j k by (simp add: main_connect_def split: prod.splits)
  {
    assume "U r3 (Upload [] (upload_kwargs a (resolve (arg_image a)))) = (r4, Raised e4)"
    then show "snd (snd (main env fs resolve U a r)) = Exit 7"
      unfolding n main_upload_status by simp
  }
  {
    assume "U r3 (Upload [] (upload_kwargs a (resolve (arg_image a)))) = (r4, Returned resp) \<and>
                   find_link resp = Inr link"
    then show "snd (snd (main env fs resolve U a r)) = Exit 0"
      unfolding n main_upload_status by simp
  }
qed

lemma exit_codes_on_small_data_set:
  "snd (snd (main no_env demo_fs demo_resolve demo_remote demo_args 0)) = Exit 2 \<and>
   snd (snd (main demo_env demo_fs demo_resolve demo_remote
               (demo_args\<lparr>arg_image := ''sub.jpg''\<rparr>) 0)) = Exit 3 \<and>
   snd (snd (main demo_env demo_fs demo_resolve (failing_remote 0) demo_args 0)) = Exit 4 \<and>
   snd (snd (main demo_env demo_fs demo_resolve (failing_remote 1) demo_args 0)) = Exit 5 \<and>
   snd (snd (main demo_env demo_fs demo_resolve (failing_remote 2) demo_args 0)) = Exit 6 \<and>
   snd (snd (main demo_env demo_fs demo_resolve (failing_remote 3) demo_args 0)) = Exit 7 \<and>
   snd (snd (main demo_env demo_fs demo_resolve demo_remote demo_args 0)) = Exit 0"
proof -
  have k0: "\<not> truthy (get_api_key no_env)"
    by code_simp
  have k: "get_api_key demo_env = Some ''secret'' \<and> ''secret'' \<noteq> [] \<and>
           arg_workspace demo_args = Some ''w'' \<and> ''w'' \<noteq> [] \<and>
           arg_project demo_args = Some ''p'' \<and> ''p'' \<noteq> []"
    by code_simp
  have k': "get_api_key demo_env = Some ''secret'' \<and> ''secret'' \<noteq> [] \<and>
           arg_workspace (demo_args\<lparr>arg_image := ''sub.jpg''\<rparr>) = Some ''w'' \<and> ''w'' \<noteq> [] \<and>
           arg_project (demo_args\<lparr>arg_image := ''sub.jpg''\<rparr>) = Some ''p'' \<and> ''p'' \<noteq> []"
    by code_simp
  have nf: "\<not> (path_exists demo_fs (demo_resolve (arg_image (demo_args\<lparr>arg_image := ''sub.jpg''\<rparr>))) \<and>
                is_file demo_fs (demo_resolve (arg_image (demo_args\<lparr>arg_image := ''sub.jpg''\<rparr>))))"
    by code_simp
  have f: "path_exists demo_fs (demo_resolve (arg_image demo_args)) \<and>
           is_file demo_fs (demo_resolve (arg_image demo_args))"
    by code_simp
  have a0: "failing_remote 0 0 (New_client (PStr ''secret'')) = (1, Raised ''down'')"
    by code_simp
  have b0: "failing_remote 1 0 (New_client (PStr ''secret'')) = (1, Returned PNone)"
    and b1: "failing_remote 1 1 (Workspace (Some ''w'')) = (2, Raised ''down'')"
    by code_simp+
  have c0: "failing_remote 2 0 (New_client (PStr ''secret'')) = (1, Returned PNone)"
    and c1: "failing_remote 2 1 (Workspace (Some ''w'')) = (2, Returned PNone)"
    and c2: "failing_remote 2 2 (Project ''p'') = (3, Raised ''down'')"
    by code_simp+
  have d0: "failing_remote 3 0 (New_client (PStr ''secret'')) = (1, Returned PNone)"
    and d1: "failing_remote 3 1 (Workspace (Some ''w'')) = (2, Returned PNone)"
    and d2: "failing_remote 3 2 (Project ''p'') = (3, Returned PNone)"
    and d3: "failing_remote 3 3 (Upload [] (upload_kwargs demo_args (demo_resolve (arg_image demo_args))))
               = (4, Raised ''down'')"
    by code_simp+
  have e0: "demo_remote 0 (New_client (PStr ''secret'')) = (1, Returned PNone)"
    and e1: "demo_remote 1 (Workspace (Some ''w'')) = (2, Returned PNone)"
    and e2: "demo_remote 2 (Project ''p'') = (3, Returned PNone)"
    and e3: "demo_remote 3 (Upload [] (upload_kwargs demo_args (demo_resolve (arg_image demo_args))))
               = (4, Returned PNone) \<and> find_link PNone = Inr PNone"
    by code_simp+
  have x2: "snd (snd (main no_env demo_fs demo_resolve demo_remote demo_args 0)) = Exit 2"
    using exit_codes [where env = no_env and a = demo_args and fs = demo_fs
        and resolve = demo_resolve and U = demo_remote and r = 0] k0
    by blast
  have x3: "snd (snd (main demo_env demo_fs demo_resolve demo_remote
               (demo_args\<lparr>arg_image := ''sub.jpg''\<rparr>) 0)) = Exit 3"
    using exit_codes [where env = demo_env and a = "demo_args\<lparr>arg_image := ''sub.jpg''\<rparr>"
        and fs = demo_fs and resolve = demo_resolve and U = demo_remote and r = 0
        and key = "''secret''" and w = "''w''" and p = "''p''"] k' nf
    by blast
  have x4: "snd (snd (main demo_env demo_fs demo_resolve (failing_remote 0) demo_args 0)) = Exit 4"
    using exit_codes [where env = demo_env and a = demo_args and fs = demo_fs
        and resolve = demo_resolve and U = "failing_remote 0" and r = 0
        and key = "''secret''" and w = "''w''" and p = "''p''"
        and ?r1.0 = 1 and ?e1.0 = "''down''"] k f a0
    by blast
  have x5: "snd (snd (main demo_env demo_fs demo_resolve (failing_remote 1) demo_args 0)) = Exit 5"
    using exit_codes [where env = demo_env and a = demo_args and fs = demo_fs
        and resolve = demo_resolve and U = "failing_remote 1" and r = 0
        and key = "''secret''" and w = "''w''" and p = "''p''"
        and ?r1.0 = 1 and ?v1.0 = PNone and ?r2.0 = 2 and ?e2.0 = "''down''"] k f b0 b1
    by blast
  have x6: "snd (snd (main demo_env demo_fs demo_resolve (failing_remote 2) demo_args 0)) = Exit 6"
    using exit_codes [where env = demo_env and a = demo_args and fs = demo_fs
        and resolve = demo_resolve and U = "failing_remote 2" and r = 0
        and key = "''secret''" and w = "''w''" and p = "''p''"
        and ?r1.0 = 1 and ?v1.0 = PNone and ?r2.0 = 2 and ?v2.0 = PNone
        and ?r3.0 = 3 and ?e3.0 = "''down''"] k f c0 c1 c2
    by blast
  have x7: "snd (snd (main demo_env demo_fs demo_resolve (failing_remote 3) demo_args 0)) = Exit 7"
    using exit_codes [where env = demo_env and a = demo_args and fs = demo_fs
        and resolve = demo_resolve and U = "failing_remote 3" and r = 0
        and key = "''secret''" and w = "''w''" and p = "''p''"
        and ?r1.0 = 1 and ?v1.0 = PNone and ?r2.0 = 2 and ?v2.0 = PNone
        and ?r3.0 = 3 and ?v3.0 = PNone and ?r4.0 = 4 and ?e4.0 = "''down''"] k f d0 d1 d2 d3
    by blast
  have x0: "snd (snd (main demo_env demo_fs demo_resolve demo_remote demo_args 0)) = Exit 0"
    using exit_codes [where env = demo_env and a = demo_args and fs = demo_fs
        and resolve = demo_resolve and U = demo_remote and r = 0
        and key = "''secret''" and w = "''w''" and p = "''p''"
        and ?r1.0 = 1 and ?v1.0 = PNone and ?r2.0 = 2 and ?v2.0 = PNone
        and ?r3.0 = 3 and ?v3.0 = PNone and ?r4.0 = 4 and resp = PNone and link = PNone]
      k f e0 e1 e2 e3
    by blast
  show ?thesis
    by (intro conjI x2 x3 x4 x5 x6 x7 x0)
qed

text \<open>
  C7 does not hold of \<^verbatim>\<open>subir2.py\<close> for every successful upload. The inspection of the
  response (lines 173 to 175) is inside the \<^verbatim>\<open>try\<close> of the upload, whose handler reports
  an upload error and exits with 7. When the upload call returns a dictionary whose
  \<^verbatim>\<open>image\<close> entry is a string, the call has not failed and the line of the completed
  upload is printed, then \<^verbatim>\<open>.get\<close> on the string raises \<^verbatim>\<open>AttributeError\<close> and the exit
  code is 7 where the claim has 0.
\<close>

theorem exit_code_after_returned_upload:
  "dict_remote 3 (Upload [] (upload_kwargs demo_args (demo_resolve (arg_image demo_args)))) =
     (4, Returned (PDict [(''image'', PStr ''x'')])) \<and>
   find_link (PDict [(''image'', PStr ''x'')]) =
     Inl (AttributeError (quoted ''str'' @ '' object has no attribute '' @ quoted ''get'')) \<and>
   fst (snd (main_upload dict_remote demo_args (demo_resolve (arg_image demo_args)) 3)) =
     [Net (Upload [] (upload_kwargs demo_args (demo_resolve (arg_image demo_args)))),
      Stdout M_done, Stdout (M_response (PDict [(''image'', PStr ''x'')])),
      Stderr (E_upload (quoted ''str'' @ '' object has no attribute '' @ quoted ''get''))] \<and>
   snd (snd (main demo_env demo_fs demo_resolve dict_remote demo_args 0)) = Exit 7"
  by code_simp

end
